theory Spec2Isabelle
  imports Complex_Main "HOL-Library.Word"
begin

section \<open>The sombrero mesh builder and the transform helpers of mexhat.cpp\<close>

text \<open>
  A shallow embedding of \<^verbatim>\<open>src/mexhat.cpp\<close>.

  Numbers. In the mesh builder a C++ \<^verbatim>\<open>float\<close> is a \<^typ>\<open>real\<close> and \<^verbatim>\<open>sqrtf\<close>, \<^verbatim>\<open>sinf\<close>,
  \<^verbatim>\<open>cosf\<close>, \<^verbatim>\<open>tanf\<close> are \<^const>\<open>sqrt\<close>, \<^const>\<open>sin\<close>, \<^const>\<open>cos\<close>, \<^const>\<open>tan\<close>: the
  arithmetic is exact. Statements about it carry bounds on the magnitude of the parameters
  inside which no operation of the code leaves the range of \<^verbatim>\<open>float\<close>. The sampling of a
  vertex is modelled a second time on values that can be infinite or NaN, for the statements
  about what happens beyond those bounds. The resolution \<^verbatim>\<open>int N\<close> is an \<^typ>\<open>int\<close> and the
  loop counters are naturals; the products \<^verbatim>\<open>N*N\<close> and \<^verbatim>\<open>j*N+i\<close> are exact, and a guarded
  builder says where they leave the 32-bit range. The conversion of \<^verbatim>\<open>j*N+i\<close> to the 16-bit
  \<^verbatim>\<open>GLushort\<close> is the reduction modulo \<open>2 ^ 16\<close> of \<^const>\<open>word_of_int\<close>, and the conversion of
  the index count to the 32-bit \<^verbatim>\<open>GLsizei\<close> is written out likewise.

  Buffers. A \<^verbatim>\<open>std::vector\<close> is a list and \<^verbatim>\<open>push_back\<close> appends at the end. The three
  OpenGL buffer objects of a \<^verbatim>\<open>Mesh\<close> are modelled by the data that \<^verbatim>\<open>glBufferData\<close>
  uploads into them.
\<close>

subsection \<open>Column-major 4x4 matrices\<close>

type_synonym Mat4 = "real list"

text \<open>\<^verbatim>\<open>Mat4 A{}\<close>: sixteen zero entries.\<close>

definition zero_Mat4 :: Mat4 where
  "zero_Mat4 = replicate 16 0"

definition identity :: Mat4 where
  "identity = fold (\<lambda>i A. A[i := (if i mod 5 = 0 then 1 else 0)]) [0..<16] zero_Mat4"

definition mul :: "Mat4 \<Rightarrow> Mat4 \<Rightarrow> Mat4" where
  "mul A B =
     fold (\<lambda>r R. fold (\<lambda>c R.
        R[c * 4 + r := A ! (0 * 4 + r) * B ! (c * 4 + 0) + A ! (1 * 4 + r) * B ! (c * 4 + 1)
                     + A ! (2 * 4 + r) * B ! (c * 4 + 2) + A ! (3 * 4 + r) * B ! (c * 4 + 3)])
        [0..<4] R) [0..<4] zero_Mat4"

definition perspective :: "real \<Rightarrow> real \<Rightarrow> real \<Rightarrow> real \<Rightarrow> Mat4" where
  "perspective fovy aspect znear zfar =
     (let f = 1 / tan (fovy * 0.5) in
      zero_Mat4[0 := f / aspect, 5 := f, 10 := (zfar + znear) / (znear - zfar), 11 := - 1,
                14 := (2 * zfar * znear) / (znear - zfar)])"

definition rotateY :: "real \<Rightarrow> Mat4" where
  "rotateY a = (let c = cos a; s = sin a in identity[0 := c, 2 := s, 8 := - s, 10 := c])"

definition rotateX :: "real \<Rightarrow> Mat4" where
  "rotateX a = (let c = cos a; s = sin a in identity[5 := c, 6 := s, 9 := - s, 10 := c])"

definition translate :: "real \<Rightarrow> real \<Rightarrow> real \<Rightarrow> Mat4" where
  "translate x y z = identity[12 := x, 13 := y, 14 := z]"

text \<open>The rotation that \<^verbatim>\<open>main\<close> builds for the frame with angle \<open>ang\<close>.\<close>

definition frame_rotation :: "real \<Rightarrow> Mat4" where
  "frame_rotation ang = mul (rotateY (ang * 0.9)) (rotateX (ang * 0.5))"

subsection \<open>The mesh builder\<close>

type_synonym GLushort = "16 word"

record Mesh =
  vbo :: "real list"
  cbo :: "real list"
  ibo :: "GLushort list"
  indexCount :: int

text \<open>The state of the first pass: the vectors \<^verbatim>\<open>pos\<close> and \<^verbatim>\<open>zs\<close> and the running
  extrema \<^verbatim>\<open>zmin\<close>, \<^verbatim>\<open>zmax\<close>.\<close>

record sampling =
  pos :: "real list"
  zs :: "real list"
  zmin :: real
  zmax :: real

text \<open>Lines 124-125: the radius of a sample, clamped from below.\<close>

definition sample_r :: "real \<Rightarrow> real \<Rightarrow> real" where
  "sample_r x y = (let r = sqrt (x * x + y * y) in if r < 1 / 10000 then 1 / 10000 else r)"

text \<open>Line 126: the height of a sample from its clamped radius.\<close>

definition sample_z :: "real \<Rightarrow> real \<Rightarrow> real \<Rightarrow> real" where
  "sample_z zscale freq r = zscale * (sin (freq * r) / r)"

text \<open>Lines 119-120 and 122-123: the domain coordinate of row or column \<open>k\<close>.\<close>

definition grid_coord :: "int \<Rightarrow> real \<Rightarrow> nat \<Rightarrow> real" where
  "grid_coord N radius k =
     (let cmin = - radius; cmax = radius; t = real k / real_of_int (N - 1)
      in cmin + t * (cmax - cmin))"

text \<open>Lines 122-131: the body of the inner loop of the first pass.\<close>

definition sample_vertex :: "int \<Rightarrow> real \<Rightarrow> real \<Rightarrow> real \<Rightarrow> real \<Rightarrow> nat \<Rightarrow> sampling \<Rightarrow> sampling" where
  "sample_vertex N radius zscale freq y i s =
     (let x = grid_coord N radius i;
          r = sample_r x y;
          z = sample_z zscale freq r
      in \<lparr>pos = pos s @ [(x / radius) * 1.5, (y / radius) * 1.5, z],
          zs = zs s @ [z],
          zmin = (if z < zmin s then z else zmin s),
          zmax = (if z > zmax s then z else zmax s)\<rparr>)"

text \<open>Lines 118-133: the first pass over the rows \<open>j\<close> and the columns \<open>i\<close>.\<close>

definition sample_row :: "int \<Rightarrow> real \<Rightarrow> real \<Rightarrow> real \<Rightarrow> nat \<Rightarrow> sampling \<Rightarrow> sampling" where
  "sample_row N radius zscale freq j s =
     (let y = grid_coord N radius j
      in fold (sample_vertex N radius zscale freq y) [0..<nat N] s)"

definition sample_grid :: "int \<Rightarrow> real \<Rightarrow> real \<Rightarrow> real \<Rightarrow> sampling" where
  "sample_grid N radius zscale freq =
     fold (sample_row N radius zscale freq) [0..<nat N]
       \<lparr>pos = [], zs = [], zmin = 1000000000, zmax = - 1000000000\<rparr>"

text \<open>Line 134: the range \<^verbatim>\<open>range\<close> of the heights (here \<open>zrange\<close>), replaced by 1 when it is below \<open>1e-6\<close>.\<close>

definition z_range :: "real \<Rightarrow> real \<Rightarrow> real" where
  "z_range lo hi = (let zrange = hi - lo in if zrange < 1 / 1000000 then 1 else zrange)"

text \<open>Lines 139-143: the colour \<open>[r, g, b]\<close> of the normalised height \<open>t\<close>.\<close>

definition height_colour :: "real \<Rightarrow> real list" where
  "height_colour t =
     (if t < 0.25 then (let k = t / 0.25 in [0, k, 1])
      else if t < 0.50 then (let k = (t - 0.25) / 0.25 in [0, 1, 1 - k])
      else if t < 0.75 then (let k = (t - 0.50) / 0.25 in [k, 1, 0])
      else (let k = (t - 0.75) / 0.25 in [1, 1 - k, 0]))"

text \<open>Line 138: the normalised height of vertex \<open>v\<close>.\<close>

definition norm_height :: "real list \<Rightarrow> real \<Rightarrow> real \<Rightarrow> nat \<Rightarrow> real" where
  "norm_height zl lo zrange v = (zl ! v - lo) / zrange"

text \<open>Lines 137-145: the second pass, over the vertices \<open>v < V\<close>.\<close>

definition colour_pass :: "int \<Rightarrow> real list \<Rightarrow> real \<Rightarrow> real \<Rightarrow> real list" where
  "colour_pass V zl lo zrange =
     fold (\<lambda>v col. col @ height_colour (norm_height zl lo zrange v)) [0..<nat V] []"

text \<open>Lines 151-156: the six indices of the cell in row \<open>j\<close> and column \<open>i\<close>.\<close>

definition cell_indices :: "int \<Rightarrow> nat \<Rightarrow> nat \<Rightarrow> GLushort list" where
  "cell_indices N j i =
     (let a = word_of_int (int j * N + int i);
          b = word_of_int (int j * N + (int i + 1));
          c = word_of_int ((int j + 1) * N + int i);
          d = word_of_int ((int j + 1) * N + (int i + 1))
      in [a, c, b, b, c, d])"

text \<open>Lines 148-158: the third pass, over the cells.\<close>

definition index_pass :: "int \<Rightarrow> GLushort list" where
  "index_pass N =
     fold (\<lambda>j idx. fold (\<lambda>i idx. idx @ cell_indices N j i) [0..<nat (N - 1)] idx)
       [0..<nat (N - 1)] []"

text \<open>Lines 108-169. The result holds the contents of the three buffers and the count.\<close>

definition makeSombrero :: "int \<Rightarrow> real \<Rightarrow> real \<Rightarrow> real \<Rightarrow> Mesh" where
  "makeSombrero N0 radius zscale freq =
     (let N = (if N0 < 3 then 3 else N0);
          V = N * N;
          s = sample_grid N radius zscale freq;
          zrange = z_range (zmin s) (zmax s);
          col = colour_pass V (zs s) (zmin s) zrange;
          idx = index_pass N
      in \<lparr>vbo = pos s, cbo = col, ibo = idx,
          indexCount = sint (word_of_nat (length idx) :: 32 word)\<rparr>)"

subsection \<open>The grid, as the first pass visits it\<close>

text \<open>The height sampled in row \<open>j\<close> and column \<open>i\<close>, and the three floats that the first
  pass appends for that vertex.\<close>

definition vertex_z :: "int \<Rightarrow> real \<Rightarrow> real \<Rightarrow> real \<Rightarrow> nat \<Rightarrow> nat \<Rightarrow> real" where
  "vertex_z N radius zscale freq j i =
     sample_z zscale freq (sample_r (grid_coord N radius i) (grid_coord N radius j))"

definition vertex_pos :: "int \<Rightarrow> real \<Rightarrow> real \<Rightarrow> real \<Rightarrow> nat \<Rightarrow> nat \<Rightarrow> real list" where
  "vertex_pos N radius zscale freq j i =
     [(grid_coord N radius i / radius) * 1.5, (grid_coord N radius j / radius) * 1.5,
      vertex_z N radius zscale freq j i]"

subsection \<open>The 32-bit integers of the builder\<close>

text \<open>
  Lines 110, 111, 112 and 148 compute \<^verbatim>\<open>N*N\<close>, \<^verbatim>\<open>V*3\<close> and \<^verbatim>\<open>(N-1)*(N-1)*6\<close> in the
  32-bit \<^verbatim>\<open>int\<close>. Where a result leaves the range of \<^verbatim>\<open>int\<close> the behaviour is undefined: at
  \<open>N = 18920\<close>, the least such resolution, the size handed to \<^verbatim>\<open>idx.reserve\<close> is negative and
  the call throws. \<open>makeSombrero_int\<close> is the builder with these products checked; \<open>None\<close>
  stands for a run in which one of them overflows, which is not guaranteed to return a mesh.
\<close>

definition INT_MAX :: int where
  "INT_MAX = 2147483647"

definition int_overflow :: "int \<Rightarrow> bool" where
  "int_overflow k \<longleftrightarrow> k < - INT_MAX - 1 \<or> INT_MAX < k"

definition makeSombrero_int :: "int \<Rightarrow> real \<Rightarrow> real \<Rightarrow> real \<Rightarrow> Mesh option" where
  "makeSombrero_int N0 radius zscale freq =
     (let N = (if N0 < 3 then 3 else N0);
          V = N * N
      in if int_overflow V \<or> int_overflow (V * 3)
            \<or> int_overflow ((N - 1) * (N - 1)) \<or> int_overflow ((N - 1) * (N - 1) * 6)
         then None
         else Some (makeSombrero N0 radius zscale freq))"

subsection \<open>Single precision with its range\<close>

text \<open>
  A value of type \<^verbatim>\<open>float\<close> with its special values: a finite number, one of the two
  infinities, or NaN. \<open>FLT_MAX\<close> is the largest finite \<^verbatim>\<open>float\<close>, \<open>(2 ^ 24 - 1) * 2 ^ 104\<close>.
  \<open>fl x\<close> is the value of an operation whose exact result is \<open>x\<close>: an infinity when \<open>x\<close>
  lies beyond \<open>FLT_MAX\<close>, and \<open>x\<close> itself otherwise. The operations treat the special
  values as IEEE 754 does. Not modelled: the rounding of a finite result (also in the half
  unit just above \<open>FLT_MAX\<close>, which rounds back to it) and the sign of a zero.
\<close>

datatype fval = Fin real | PInf | NInf | NaN

definition FLT_MAX :: real where
  "FLT_MAX = 340282346638528859811704183484516925440"

definition fl :: "real \<Rightarrow> fval" where
  "fl x = (if FLT_MAX < x then PInf else if x < - FLT_MAX then NInf else Fin x)"

fun fneg :: "fval \<Rightarrow> fval" where
  "fneg (Fin x) = Fin (- x)"
| "fneg PInf = NInf"
| "fneg NInf = PInf"
| "fneg NaN = NaN"

fun fadd :: "fval \<Rightarrow> fval \<Rightarrow> fval" where
  "fadd (Fin x) (Fin y) = fl (x + y)"
| "fadd NaN _ = NaN"
| "fadd _ NaN = NaN"
| "fadd PInf NInf = NaN"
| "fadd NInf PInf = NaN"
| "fadd PInf _ = PInf"
| "fadd _ PInf = PInf"
| "fadd NInf _ = NInf"
| "fadd _ NInf = NInf"

definition fsub :: "fval \<Rightarrow> fval \<Rightarrow> fval" where
  "fsub a b = fadd a (fneg b)"

fun fmul :: "fval \<Rightarrow> fval \<Rightarrow> fval" where
  "fmul (Fin x) (Fin y) = fl (x * y)"
| "fmul NaN _ = NaN"
| "fmul _ NaN = NaN"
| "fmul (Fin x) PInf = (if x = 0 then NaN else if 0 < x then PInf else NInf)"
| "fmul (Fin x) NInf = (if x = 0 then NaN else if 0 < x then NInf else PInf)"
| "fmul PInf (Fin y) = (if y = 0 then NaN else if 0 < y then PInf else NInf)"
| "fmul NInf (Fin y) = (if y = 0 then NaN else if 0 < y then NInf else PInf)"
| "fmul PInf PInf = PInf"
| "fmul NInf NInf = PInf"
| "fmul PInf NInf = NInf"
| "fmul NInf PInf = NInf"

fun fdiv :: "fval \<Rightarrow> fval \<Rightarrow> fval" where
  "fdiv (Fin x) (Fin y) =
     (if y = 0 then (if x = 0 then NaN else if 0 < x then PInf else NInf) else fl (x / y))"
| "fdiv NaN _ = NaN"
| "fdiv _ NaN = NaN"
| "fdiv (Fin x) _ = Fin 0"
| "fdiv PInf (Fin y) = (if 0 \<le> y then PInf else NInf)"
| "fdiv NInf (Fin y) = (if 0 \<le> y then NInf else PInf)"
| "fdiv _ _ = NaN"

fun fsqrt :: "fval \<Rightarrow> fval" where
  "fsqrt (Fin x) = (if x < 0 then NaN else Fin (sqrt x))"
| "fsqrt PInf = PInf"
| "fsqrt _ = NaN"

fun fsin :: "fval \<Rightarrow> fval" where
  "fsin (Fin x) = Fin (sin x)"
| "fsin _ = NaN"

fun flt :: "fval \<Rightarrow> fval \<Rightarrow> bool" where
  "flt (Fin x) (Fin y) = (x < y)"
| "flt NaN _ = False"
| "flt _ NaN = False"
| "flt PInf _ = False"
| "flt _ NInf = False"
| "flt _ _ = True"

text \<open>A finite value within the bounds, and a finite value.\<close>

definition fbetween :: "real \<Rightarrow> real \<Rightarrow> fval \<Rightarrow> bool" where
  "fbetween lo hi v = (case v of Fin x \<Rightarrow> lo \<le> x \<and> x \<le> hi | _ \<Rightarrow> False)"

definition ffinite :: "fval \<Rightarrow> bool" where
  "ffinite v = (case v of Fin x \<Rightarrow> True | _ \<Rightarrow> False)"

text \<open>
  Lines 118-130 once more, on these values: the coordinate of a row or column, the clamped
  radius, the height, the three floats appended for a vertex, and the vector \<^verbatim>\<open>pos\<close> after
  the first pass. The parameters are finite floats. \<open>vbo_f\<close> is the position buffer of
  \<^verbatim>\<open>makeSombrero\<close>, with the clamp of line 109. \<open>eps_f\<close> is the value of the literal
  \<^verbatim>\<open>1e-4f\<close> of line 125, the \<^verbatim>\<open>float\<close> nearest to \<open>1 / 10000\<close>: \<open>13743895 / 2 ^ 37\<close>, a little
  below \<open>1 / 10000\<close>.
\<close>

definition eps_f :: real where
  "eps_f = 13743895 / 137438953472"

definition grid_coord_f :: "int \<Rightarrow> real \<Rightarrow> nat \<Rightarrow> fval" where
  "grid_coord_f N radius k =
     (let cmin = fneg (Fin radius); cmax = Fin radius;
          t = fdiv (Fin (real k)) (Fin (real_of_int (N - 1)))
      in fadd cmin (fmul t (fsub cmax cmin)))"

definition sample_r_f :: "fval \<Rightarrow> fval \<Rightarrow> fval" where
  "sample_r_f x y =
     (let r = fsqrt (fadd (fmul x x) (fmul y y))
      in if flt r (Fin eps_f) then Fin eps_f else r)"

definition sample_z_f :: "real \<Rightarrow> real \<Rightarrow> fval \<Rightarrow> fval" where
  "sample_z_f zscale freq r = fmul (Fin zscale) (fdiv (fsin (fmul (Fin freq) r)) r)"

definition vertex_f :: "int \<Rightarrow> real \<Rightarrow> real \<Rightarrow> real \<Rightarrow> fval \<Rightarrow> nat \<Rightarrow> fval list" where
  "vertex_f N radius zscale freq y i =
     (let x = grid_coord_f N radius i;
          r = sample_r_f x y;
          z = sample_z_f zscale freq r
      in [fmul (fdiv x (Fin radius)) (Fin 1.5), fmul (fdiv y (Fin radius)) (Fin 1.5), z])"

definition pos_f :: "int \<Rightarrow> real \<Rightarrow> real \<Rightarrow> real \<Rightarrow> fval list" where
  "pos_f N radius zscale freq =
     fold (\<lambda>j posv.
             let y = grid_coord_f N radius j
             in fold (\<lambda>i posv. posv @ vertex_f N radius zscale freq y i) [0..<nat N] posv)
       [0..<nat N] []"

definition vbo_f :: "int \<Rightarrow> real \<Rightarrow> real \<Rightarrow> real \<Rightarrow> fval list" where
  "vbo_f N0 radius zscale freq =
     (let N = (if N0 < 3 then 3 else N0) in pos_f N radius zscale freq)"

section \<open>Loops that append are concatenations\<close>

lemma fold_append_concat:
  "fold (\<lambda>x acc. acc @ f x) xs acc = acc @ concat (map f xs)"
  by (induction xs arbitrary: acc) simp_all

lemma length_concat_uniform:
  "(\<And>x. x \<in> set xs \<Longrightarrow> length (f x) = m) \<Longrightarrow> length (concat (map f xs)) = length xs * m"
  by (induction xs) simp_all

lemma nth_concat_uniform:
  "(\<And>x. x \<in> set xs \<Longrightarrow> length (f x) = m) \<Longrightarrow> a < length xs \<Longrightarrow> k < m \<Longrightarrow>
     concat (map f xs) ! (a * m + k) = f (xs ! a) ! k"
proof (induction xs arbitrary: a)
  case Nil
  then show ?case by simp
next
  case (Cons x xs)
  show ?case
  proof (cases a)
    case 0
    with Cons.prems show ?thesis by (simp add: nth_append)
  next
    case (Suc b)
    have "concat (map f xs) ! (b * m + k) = f (xs ! b) ! k"
      using Cons.prems Suc by (intro Cons.IH) simp_all
    moreover have "length (f x) = m" using Cons.prems(1) by simp
    ultimately show ?thesis using Suc by (simp add: nth_append)
  qed
qed

lemma nat_square: "0 \<le> N \<Longrightarrow> nat (N * N) = nat N * nat N"
  by (simp add: nat_mult_distrib)

section \<open>The index pass\<close>

lemma index_pass_concat:
  "index_pass N =
     concat (map (\<lambda>j. concat (map (cell_indices N j) [0..<nat (N - 1)])) [0..<nat (N - 1)])"
proof -
  have inner: "\<And>j idx. fold (\<lambda>i idx. idx @ cell_indices N j i) [0..<nat (N - 1)] idx
        = idx @ concat (map (cell_indices N j) [0..<nat (N - 1)])"
    by (rule fold_append_concat)
  show ?thesis
    unfolding index_pass_def inner
    by (simp add: fold_append_concat)
qed

lemma length_cell_indices: "length (cell_indices N j i) = 6"
  by (simp add: cell_indices_def Let_def)

lemma length_cell_row:
  "length (concat (map (cell_indices N j) [0..<n])) = n * 6"
  using length_concat_uniform [of "[0..<n]" "cell_indices N j" 6]
  by (simp add: length_cell_indices)

lemma length_index_pass: "length (index_pass N) = 6 * (nat (N - 1) * nat (N - 1))"
  using length_concat_uniform [of "[0..<nat (N - 1)]"
      "\<lambda>j. concat (map (cell_indices N j) [0..<nat (N - 1)])" "nat (N - 1) * 6"]
  by (simp add: index_pass_concat length_cell_row)

lemma index_pass_nth:
  assumes "j < nat (N - 1)" and "i < nat (N - 1)" and "k < 6"
  shows "index_pass N ! (6 * (j * nat (N - 1) + i) + k) = cell_indices N j i ! k"
proof -
  define n where "n = nat (N - 1)"
  have ik: "i * 6 + k < n * 6" using assms n_def by simp
  have "index_pass N ! (j * (n * 6) + (i * 6 + k))
      = concat (map (cell_indices N j) [0..<n]) ! (i * 6 + k)"
    unfolding index_pass_concat n_def [symmetric]
    using nth_concat_uniform [of "[0..<n]" "\<lambda>j. concat (map (cell_indices N j) [0..<n])" "n * 6" j "i * 6 + k"]
      assms ik n_def by (simp add: length_cell_row)
  also have "\<dots> = cell_indices N j i ! k"
    using nth_concat_uniform [of "[0..<n]" "cell_indices N j" 6 i k] assms n_def
    by (simp add: length_cell_indices)
  finally show ?thesis
    by (simp add: n_def algebra_simps)
qed

lemma in_index_passD:
  "w \<in> set (index_pass N) \<Longrightarrow>
     \<exists>j i. j < nat (N - 1) \<and> i < nat (N - 1) \<and> w \<in> set (cell_indices N j i)"
  unfolding index_pass_concat by auto blast

lemma unat_ushort_le: "0 \<le> k \<Longrightarrow> unat (word_of_int k :: GLushort) \<le> nat k"
  by (simp add: unat_eq_nat_uint uint_word_of_int nat_mono zmod_le_nonneg_dividend)

lemma unat_ushort_exact: "0 \<le> k \<Longrightarrow> k < 65536 \<Longrightarrow> unat (word_of_int k :: GLushort) = nat k"
  by (simp add: unat_eq_nat_uint uint_word_of_int)

lemma cell_indices_bound:
  assumes "j < nat (N - 1)" and "i < nat (N - 1)" and "w \<in> set (cell_indices N j i)"
  shows "int (unat w) < N * N"
proof -
  have N: "int j + 2 \<le> N" "int i + 2 \<le> N" using assms by linarith+
  have top: "(int j + 1) * N + (int i + 1) < N * N"
  proof -
    have "(int j + 1) * N \<le> (N - 1) * N" using N by (intro mult_right_mono) simp_all
    then show ?thesis using N by (simp add: algebra_simps)
  qed
  have mono: "int j * N \<le> (int j + 1) * N" using N by (simp add: algebra_simps)
  have nonneg: "0 \<le> int j * N" using N by simp
  define a b c d where "a = int j * N + int i" and "b = int j * N + (int i + 1)"
    and "c = (int j + 1) * N + int i" and "d = (int j + 1) * N + (int i + 1)"
  have bounds: "0 \<le> a" "a \<le> d" "0 \<le> b" "b \<le> d" "0 \<le> c" "c \<le> d" "0 \<le> d"
    using mono nonneg by (simp_all add: a_def b_def c_def d_def)
  have "cell_indices N j i
      = [word_of_int a, word_of_int c, word_of_int b, word_of_int b, word_of_int c, word_of_int d]"
    by (simp only: cell_indices_def Let_def a_def b_def c_def d_def)
  with assms(3) have "w \<in> {word_of_int a, word_of_int b, word_of_int c, word_of_int d}"
    by auto
  with bounds obtain k where k: "w = word_of_int k" "0 \<le> k" "k \<le> (int j + 1) * N + (int i + 1)"
    unfolding d_def [symmetric] by blast
  have "unat w \<le> nat k" using k unat_ushort_le by simp
  then show ?thesis using k top by linarith
qed

lemma index_pass_3:
  "index_pass 3 = [0, 3, 1, 1, 3, 4, 1, 4, 2, 2, 4, 5, 3, 6, 4, 4, 6, 7, 4, 7, 5, 5, 7, 8]"
  by (simp add: index_pass_def cell_indices_def Let_def upt_conv_Cons)

lemma index_pass_cell:
  assumes "j < nat (N - 1)" and "i < nat (N - 1)"
  shows "take 6 (drop (6 * (j * nat (N - 1) + i)) (index_pass N)) = cell_indices N j i"
proof (rule nth_equalityI)
  define n where "n = nat (N - 1)"
  have "j * n + i + 1 \<le> j * n + n" using assms n_def by simp
  also have "\<dots> = (j + 1) * n" by simp
  also have "\<dots> \<le> n * n" using mult_le_mono1 [of "j + 1" n n] assms n_def by simp
  finally have le: "6 * (j * n + i) + 6 \<le> 6 * (n * n)" by simp
  then show len: "length (take 6 (drop (6 * (j * nat (N - 1) + i)) (index_pass N)))
      = length (cell_indices N j i)"
    by (simp add: length_index_pass length_cell_indices n_def)
  fix k assume "k < length (take 6 (drop (6 * (j * nat (N - 1) + i)) (index_pass N)))"
  then have k: "k < 6" by simp
  then show "take 6 (drop (6 * (j * nat (N - 1) + i)) (index_pass N)) ! k = cell_indices N j i ! k"
    using le index_pass_nth [OF assms k] by (simp add: length_index_pass n_def)
qed

section \<open>The sampling pass\<close>

lemma sample_r_ge: "1 / 10000 \<le> sample_r x y"
  by (simp add: sample_r_def Let_def)

lemma sample_r_origin: "sample_r 0 0 = 1 / 10000"
  by (simp add: sample_r_def Let_def)

lemma sample_z_bound:
  assumes "1 / 10000 \<le> r"
  shows "\<bar>sample_z zscale freq r\<bar> \<le> \<bar>zscale\<bar> * 10000"
proof -
  have r: "0 < r" using assms by simp
  have "\<bar>sin (freq * r) / r\<bar> = \<bar>sin (freq * r)\<bar> / r" using r by simp
  also have "\<dots> \<le> 1 / r" using r by (simp add: divide_right_mono)
  also have "\<dots> \<le> 10000" using assms r by (simp add: field_simps)
  finally have "\<bar>sin (freq * r) / r\<bar> \<le> 10000" .
  then have "\<bar>zscale\<bar> * \<bar>sin (freq * r) / r\<bar> \<le> \<bar>zscale\<bar> * 10000"
    by (intro mult_left_mono) simp_all
  then show ?thesis by (simp add: sample_z_def abs_mult)
qed

lemma vertex_z_bound: "\<bar>vertex_z N radius zscale freq j i\<bar> \<le> \<bar>zscale\<bar> * 10000"
  unfolding vertex_z_def by (rule sample_z_bound [OF sample_r_ge])

lemma sample_vertex_sel:
  "pos (sample_vertex N R S F y i s)
     = pos s @ [(grid_coord N R i / R) * 1.5, (y / R) * 1.5, sample_z S F (sample_r (grid_coord N R i) y)]"
  "zs (sample_vertex N R S F y i s) = zs s @ [sample_z S F (sample_r (grid_coord N R i) y)]"
  "zmin (sample_vertex N R S F y i s) = min (sample_z S F (sample_r (grid_coord N R i) y)) (zmin s)"
  "zmax (sample_vertex N R S F y i s) = max (sample_z S F (sample_r (grid_coord N R i) y)) (zmax s)"
  by (simp_all add: sample_vertex_def Let_def min_def max_def)

lemma fold_sample_vertex:
  "pos (fold (sample_vertex N R S F y) is s)
     = pos s @ concat (map (\<lambda>i. [(grid_coord N R i / R) * 1.5, (y / R) * 1.5,
                                   sample_z S F (sample_r (grid_coord N R i) y)]) is)"
  "zs (fold (sample_vertex N R S F y) is s)
     = zs s @ map (\<lambda>i. sample_z S F (sample_r (grid_coord N R i) y)) is"
  "zmin (fold (sample_vertex N R S F y) is s)
     = fold min (map (\<lambda>i. sample_z S F (sample_r (grid_coord N R i) y)) is) (zmin s)"
  "zmax (fold (sample_vertex N R S F y) is s)
     = fold max (map (\<lambda>i. sample_z S F (sample_r (grid_coord N R i) y)) is) (zmax s)"
  by (induction "is" arbitrary: s; simp add: sample_vertex_sel)+

lemma sample_row_sel:
  "pos (sample_row N R S F j s) = pos s @ concat (map (vertex_pos N R S F j) [0..<nat N])"
  "zs (sample_row N R S F j s) = zs s @ map (vertex_z N R S F j) [0..<nat N]"
  "zmin (sample_row N R S F j s) = fold min (map (vertex_z N R S F j) [0..<nat N]) (zmin s)"
  "zmax (sample_row N R S F j s) = fold max (map (vertex_z N R S F j) [0..<nat N]) (zmax s)"
  unfolding sample_row_def Let_def fold_sample_vertex vertex_pos_def [abs_def] vertex_z_def [abs_def]
  by simp_all

lemma fold_sample_row:
  "pos (fold (sample_row N R S F) js s)
     = pos s @ concat (map (\<lambda>j. concat (map (vertex_pos N R S F j) [0..<nat N])) js)"
  "zs (fold (sample_row N R S F) js s)
     = zs s @ concat (map (\<lambda>j. map (vertex_z N R S F j) [0..<nat N]) js)"
  "zmin (fold (sample_row N R S F) js s)
     = fold min (concat (map (\<lambda>j. map (vertex_z N R S F j) [0..<nat N]) js)) (zmin s)"
  "zmax (fold (sample_row N R S F) js s)
     = fold max (concat (map (\<lambda>j. map (vertex_z N R S F j) [0..<nat N]) js)) (zmax s)"
  by (induction js arbitrary: s; simp add: sample_row_sel)+

lemma sample_grid_sel:
  "pos (sample_grid N R S F)
     = concat (map (\<lambda>j. concat (map (vertex_pos N R S F j) [0..<nat N])) [0..<nat N])"
  "zs (sample_grid N R S F)
     = concat (map (\<lambda>j. map (vertex_z N R S F j) [0..<nat N]) [0..<nat N])"
  "zmin (sample_grid N R S F) = fold min (zs (sample_grid N R S F)) 1000000000"
  "zmax (sample_grid N R S F) = fold max (zs (sample_grid N R S F)) (- 1000000000)"
  by (simp_all add: sample_grid_def fold_sample_row)

lemma fold_min_Min: "fold min xs (m::real) = Min (insert m (set xs))"
  using Min.set_eq_fold [of m xs] by simp

lemma fold_max_Max: "fold max xs (m::real) = Max (insert m (set xs))"
  using Max.set_eq_fold [of m xs] by simp

lemma length_zs: "length (zs (sample_grid N R S F)) = nat N * nat N"
  using length_concat_uniform [of "[0..<nat N]" "\<lambda>j. map (vertex_z N R S F j) [0..<nat N]" "nat N"]
  by (simp add: sample_grid_sel)

lemma length_vertex_row: "length (concat (map (vertex_pos N R S F j) [0..<n])) = n * 3"
  using length_concat_uniform [of "[0..<n]" "vertex_pos N R S F j" 3]
  by (simp add: vertex_pos_def)

lemma length_pos: "length (pos (sample_grid N R S F)) = 3 * (nat N * nat N)"
  using length_concat_uniform [of "[0..<nat N]"
      "\<lambda>j. concat (map (vertex_pos N R S F j) [0..<nat N])" "nat N * 3"]
  by (simp add: sample_grid_sel length_vertex_row)

lemma zs_nth:
  assumes "j < nat N" and "i < nat N"
  shows "zs (sample_grid N R S F) ! (j * nat N + i) = vertex_z N R S F j i"
  using nth_concat_uniform [of "[0..<nat N]" "\<lambda>j. map (vertex_z N R S F j) [0..<nat N]" "nat N" j i]
    assms by (simp add: sample_grid_sel)

lemma pos_nth:
  assumes "j < nat N" and "i < nat N" and "k < 3"
  shows "pos (sample_grid N R S F) ! (3 * (j * nat N + i) + k) = vertex_pos N R S F j i ! k"
proof -
  define n where "n = nat N"
  have ik: "i * 3 + k < n * 3" using assms n_def by simp
  have "pos (sample_grid N R S F) ! (j * (n * 3) + (i * 3 + k))
      = concat (map (vertex_pos N R S F j) [0..<n]) ! (i * 3 + k)"
    unfolding sample_grid_sel n_def [symmetric]
    using nth_concat_uniform [of "[0..<n]" "\<lambda>j. concat (map (vertex_pos N R S F j) [0..<n])" "n * 3" j "i * 3 + k"]
      assms ik n_def by (simp add: length_vertex_row)
  also have "\<dots> = vertex_pos N R S F j i ! k"
    using nth_concat_uniform [of "[0..<n]" "vertex_pos N R S F j" 3 i k] assms n_def
    by (simp add: vertex_pos_def)
  finally show ?thesis
    by (simp add: n_def algebra_simps)
qed

lemma grid_coord_scaled:
  assumes "0 < radius"
  shows "(grid_coord N radius k / radius) * 1.5 = 3 * real k / real_of_int (N - 1) - 3 / 2"
proof -
  define t where "t = real k / real_of_int (N - 1)"
  have "((- radius + t * (radius - - radius)) / radius) * 1.5 = 3 * t - 3 / 2"
    using assms by (simp add: field_simps)
  then show ?thesis
    by (simp add: grid_coord_def Let_def t_def)
qed

lemma grid_fraction:
  assumes "3 \<le> N" and "k < nat N"
  shows "0 \<le> real k / real_of_int (N - 1)" and "real k / real_of_int (N - 1) \<le> 1"
proof -
  have "real k \<le> real_of_int (N - 1)" using assms by linarith
  moreover have "0 < real_of_int (N - 1)" using assms by simp
  ultimately show "0 \<le> real k / real_of_int (N - 1)" "real k / real_of_int (N - 1) \<le> 1"
    by simp_all
qed

section \<open>The colour pass\<close>

lemma colour_pass_concat:
  "colour_pass V zl lo rg = concat (map (\<lambda>v. height_colour (norm_height zl lo rg v)) [0..<nat V])"
  by (simp add: colour_pass_def fold_append_concat)

lemma length_height_colour: "length (height_colour t) = 3"
  by (simp add: height_colour_def Let_def)

lemma length_colour_pass: "length (colour_pass V zl lo rg) = 3 * nat V"
  using length_concat_uniform [of "[0..<nat V]" "\<lambda>v. height_colour (norm_height zl lo rg v)" 3]
  by (simp add: colour_pass_concat length_height_colour)

lemma colour_pass_nth:
  assumes "v < nat V" and "k < 3"
  shows "colour_pass V zl lo rg ! (3 * v + k) = height_colour (norm_height zl lo rg v) ! k"
  using nth_concat_uniform [of "[0..<nat V]" "\<lambda>v. height_colour (norm_height zl lo rg v)" 3 v k]
    assms by (simp add: colour_pass_concat length_height_colour mult.commute)

section \<open>The buffers of a mesh\<close>

lemma makeSombrero_sel:
  assumes "3 \<le> N"
  shows "vbo (makeSombrero N R S F) = pos (sample_grid N R S F)"
    and "cbo (makeSombrero N R S F)
         = colour_pass (N * N) (zs (sample_grid N R S F)) (zmin (sample_grid N R S F))
             (z_range (zmin (sample_grid N R S F)) (zmax (sample_grid N R S F)))"
    and "ibo (makeSombrero N R S F) = index_pass N"
    and "indexCount (makeSombrero N R S F) = sint (word_of_nat (length (index_pass N)) :: 32 word)"
  using assms by (simp_all add: makeSombrero_def Let_def)

lemma vbo_nth:
  assumes "3 \<le> N" and "j < nat N" and "i < nat N"
  shows "vbo (makeSombrero N R S F) ! (3 * (j * nat N + i)) = (grid_coord N R i / R) * 1.5"
    and "vbo (makeSombrero N R S F) ! (3 * (j * nat N + i) + 1) = (grid_coord N R j / R) * 1.5"
    and "vbo (makeSombrero N R S F) ! (3 * (j * nat N + i) + 2) = vertex_z N R S F j i"
  using pos_nth [OF assms(2,3), of 0 R S F] pos_nth [OF assms(2,3), of 1 R S F]
    pos_nth [OF assms(2,3), of 2 R S F] assms(1)
  by (simp_all add: makeSombrero_sel vertex_pos_def)

section \<open>Matrices, entry by entry\<close>

lemma zero_Mat4_eq: "zero_Mat4 = [0, 0, 0, 0,  0, 0, 0, 0,  0, 0, 0, 0,  0, 0, 0, 0]"
  by (simp add: zero_Mat4_def eval_nat_numeral)

lemma upt_16: "[0..<16] = [0, 1, 2, 3, 4, 5, 6, 7, 8, 9, 10, 11, 12, 13, 14, 15]"
  by (simp add: upt_conv_Cons)

lemma upt_4: "[0..<4] = [0, 1, 2, 3]"
  by (simp add: upt_conv_Cons)

lemma identity_eq: "identity = [1, 0, 0, 0,  0, 1, 0, 0,  0, 0, 1, 0,  0, 0, 0, 1]"
  unfolding identity_def zero_Mat4_eq upt_16 by simp

lemma rotateY_eq:
  "rotateY a = [cos a, 0, sin a, 0,  0, 1, 0, 0,  - sin a, 0, cos a, 0,  0, 0, 0, 1]"
  by (simp add: rotateY_def identity_eq Let_def)

lemma rotateX_eq:
  "rotateX a = [1, 0, 0, 0,  0, cos a, sin a, 0,  0, - sin a, cos a, 0,  0, 0, 0, 1]"
  by (simp add: rotateX_def identity_eq Let_def)

lemma perspective_eq:
  "perspective fovy aspect znear zfar =
     [1 / tan (fovy * 0.5) / aspect, 0, 0, 0,  0, 1 / tan (fovy * 0.5), 0, 0,
      0, 0, (zfar + znear) / (znear - zfar), - 1,  0, 0, (2 * zfar * znear) / (znear - zfar), 0]"
  by (simp add: perspective_def zero_Mat4_eq Let_def)

lemma mul_rotateY_rotateX:
  "mul (rotateY a) (rotateX b) =
     [cos a, 0, sin a, 0,
      - (sin a * sin b), cos b, cos a * sin b, 0,
      - (sin a * cos b), - sin b, cos a * cos b, 0,
      0, 0, 0, 1]"
  unfolding mul_def rotateY_eq rotateX_eq zero_Mat4_eq upt_4 by simp

section \<open>Heights and colours of the vertices\<close>

lemma zs_vbo:
  assumes "3 \<le> N" and "v < nat N * nat N"
  shows "vbo (makeSombrero N R S F) ! (3 * v + 2) = zs (sample_grid N R S F) ! v"
proof -
  define n where "n = nat N"
  have n: "0 < n" using assms(1) n_def by simp
  have j: "v div n < n" using assms(2) n n_def by (simp add: less_mult_imp_div_less)
  have i: "v mod n < n" using n by simp
  have v: "v = (v div n) * n + v mod n" by simp
  have "vbo (makeSombrero N R S F) ! (3 * ((v div n) * n + v mod n) + 2)
      = vertex_z N R S F (v div n) (v mod n)"
    using vbo_nth(3) [OF assms(1), of "v div n" "v mod n"] i j n_def by simp
  moreover have "zs (sample_grid N R S F) ! ((v div n) * n + v mod n)
      = vertex_z N R S F (v div n) (v mod n)"
    using zs_nth [of "v div n" N "v mod n"] i j n_def by simp
  ultimately show ?thesis using v by simp
qed

lemma zs_mem:
  assumes "v < nat N * nat N"
  shows "zs (sample_grid N R S F) ! v \<in> set (zs (sample_grid N R S F))"
  using assms by (simp add: length_zs)

lemma tracked_extrema:
  assumes "z \<in> set (zs (sample_grid N R S F))"
  shows "zmin (sample_grid N R S F) \<le> z" and "z \<le> zmax (sample_grid N R S F)"
  using assms by (simp_all add: sample_grid_sel(3,4) fold_min_Min fold_max_Max)

lemma tracked_min_eq:
  assumes "z \<in> set (zs (sample_grid N R S F))"
    and "\<And>u. u \<in> set (zs (sample_grid N R S F)) \<Longrightarrow> z \<le> u"
    and "z \<le> 1000000000"
  shows "zmin (sample_grid N R S F) = z"
  unfolding sample_grid_sel(3) fold_min_Min
  using assms by (intro Min_eqI) auto

lemma tracked_max_eq:
  assumes "z \<in> set (zs (sample_grid N R S F))"
    and "\<And>u. u \<in> set (zs (sample_grid N R S F)) \<Longrightarrow> u \<le> z"
    and "- 1000000000 \<le> z"
  shows "zmax (sample_grid N R S F) = z"
  unfolding sample_grid_sel(4) fold_max_Max
  using assms by (intro Max_eqI) auto

lemma height_colour_ends:
  "height_colour 0 = [0, 0, 1]" "height_colour (1 / 4) = [0, 1, 1]"
  "height_colour (1 / 2) = [0, 1, 0]" "height_colour (3 / 4) = [1, 1, 0]"
  "height_colour 1 = [1, 0, 0]"
  by (simp_all add: height_colour_def Let_def)

lemma height_colour_unit:
  assumes "0 \<le> t" and "t \<le> 1" and "k < 3"
  shows "0 \<le> height_colour t ! k \<and> height_colour t ! k \<le> 1"
proof -
  from assms(3) consider "k = 0" | "k = 1" | "k = 2" by linarith
  then show ?thesis
    using assms(1,2) by cases (simp_all add: height_colour_def Let_def)
qed

lemma norm_height_unit:
  assumes "lo \<le> z" and "z \<le> hi"
  shows "0 \<le> (z - lo) / z_range lo hi" and "(z - lo) / z_range lo hi \<le> 1"
proof -
  have pos: "0 < z_range lo hi" by (simp add: z_range_def Let_def)
  have "z - lo \<le> z_range lo hi" using assms by (simp add: z_range_def Let_def)
  then show "(z - lo) / z_range lo hi \<le> 1" using pos by simp
  show "0 \<le> (z - lo) / z_range lo hi" using pos assms by simp
qed

lemma cbo_nth:
  assumes "3 \<le> N" and "v < nat N * nat N" and "k < 3"
  shows "cbo (makeSombrero N R S F) ! (3 * v + k)
       = height_colour ((zs (sample_grid N R S F) ! v - zmin (sample_grid N R S F))
                        / z_range (zmin (sample_grid N R S F)) (zmax (sample_grid N R S F))) ! k"
  using assms colour_pass_nth [of v "N * N" k]
  by (simp add: makeSombrero_sel nat_square norm_height_def)

lemma zs_bound:
  assumes "z \<in> set (zs (sample_grid N R S F))"
  shows "\<bar>z\<bar> \<le> \<bar>S\<bar> * 10000"
  using assms vertex_z_bound [of N R S F] by (auto simp: sample_grid_sel(2))

lemma colour_unit:
  assumes "3 \<le> N" and "v < nat N * nat N" and "k < 3"
  shows "0 \<le> cbo (makeSombrero N R S F) ! (3 * v + k)"
    and "cbo (makeSombrero N R S F) ! (3 * v + k) \<le> 1"
proof -
  define s where "s = sample_grid N R S F"
  have "zs s ! v \<in> set (zs s)" unfolding s_def using assms(2) by (rule zs_mem)
  then have "zmin s \<le> zs s ! v" "zs s ! v \<le> zmax s"
    unfolding s_def by (rule tracked_extrema)+
  then have "0 \<le> (zs s ! v - zmin s) / z_range (zmin s) (zmax s)"
    "(zs s ! v - zmin s) / z_range (zmin s) (zmax s) \<le> 1"
    by (rule norm_height_unit)+
  then have "0 \<le> height_colour ((zs s ! v - zmin s) / z_range (zmin s) (zmax s)) ! k
      \<and> height_colour ((zs s ! v - zmin s) / z_range (zmin s) (zmax s)) ! k \<le> 1"
    using assms(3) by (rule height_colour_unit)
  then show "0 \<le> cbo (makeSombrero N R S F) ! (3 * v + k)"
    "cbo (makeSombrero N R S F) ! (3 * v + k) \<le> 1"
    unfolding cbo_nth [OF assms] s_def by simp_all
qed

lemma cbo_vertex:
  assumes "3 \<le> N" and "v < nat N * nat N"
    and "height_colour ((zs (sample_grid N R S F) ! v - zmin (sample_grid N R S F))
                        / z_range (zmin (sample_grid N R S F)) (zmax (sample_grid N R S F)))
         = [r, g, b]"
  shows "cbo (makeSombrero N R S F) ! (3 * v) = r \<and> cbo (makeSombrero N R S F) ! (3 * v + 1) = g
       \<and> cbo (makeSombrero N R S F) ! (3 * v + 2) = b"
  using cbo_nth [OF assms(1,2), of 0 R S F] cbo_nth [OF assms(1,2), of 1 R S F]
    cbo_nth [OF assms(1,2), of 2 R S F] assms(3) by simp

lemma min_vertex_colour:
  assumes "3 \<le> N" and "v < nat N * nat N"
    and low: "\<And>u. u < nat N * nat N \<Longrightarrow>
           vbo (makeSombrero N R S F) ! (3 * v + 2) \<le> vbo (makeSombrero N R S F) ! (3 * u + 2)"
    and "vbo (makeSombrero N R S F) ! (3 * v + 2) \<le> 1000000000"
  shows "cbo (makeSombrero N R S F) ! (3 * v) = 0 \<and> cbo (makeSombrero N R S F) ! (3 * v + 1) = 0
       \<and> cbo (makeSombrero N R S F) ! (3 * v + 2) = 1"
proof -
  define s where "s = sample_grid N R S F"
  have zv: "vbo (makeSombrero N R S F) ! (3 * w + 2) = zs s ! w" if "w < nat N * nat N" for w
    unfolding s_def using assms(1) that by (rule zs_vbo)
  have mem: "zs s ! v \<in> set (zs s)" unfolding s_def using assms(2) by (rule zs_mem)
  have le: "zs s ! v \<le> z" if "z \<in> set (zs s)" for z
  proof -
    from that obtain u where u: "u < nat N * nat N" "z = zs s ! u"
      unfolding s_def by (auto simp: in_set_conv_nth length_zs)
    then show ?thesis using low [OF u(1)] unfolding zv [OF u(1)] zv [OF assms(2)] by simp
  qed
  have "zs s ! v \<le> 1000000000" using assms(4) unfolding zv [OF assms(2)] .
  with mem le have "zmin s = zs s ! v" unfolding s_def by (intro tracked_min_eq)
  then have "height_colour ((zs s ! v - zmin s) / z_range (zmin s) (zmax s)) = [0, 0, 1]"
    by (simp add: height_colour_ends)
  then show ?thesis unfolding s_def by (rule cbo_vertex [OF assms(1,2)])
qed

lemma max_vertex_colour:
  assumes "3 \<le> N" and "v < nat N * nat N" and "u < nat N * nat N"
    and high: "\<And>w. w < nat N * nat N \<Longrightarrow>
           vbo (makeSombrero N R S F) ! (3 * w + 2) \<le> vbo (makeSombrero N R S F) ! (3 * v + 2)"
    and "- 1000000000 \<le> vbo (makeSombrero N R S F) ! (3 * v + 2)"
    and "1 / 1000000 \<le> vbo (makeSombrero N R S F) ! (3 * v + 2)
                          - vbo (makeSombrero N R S F) ! (3 * u + 2)"
  shows "cbo (makeSombrero N R S F) ! (3 * v) = 1 \<and> cbo (makeSombrero N R S F) ! (3 * v + 1) = 0
       \<and> cbo (makeSombrero N R S F) ! (3 * v + 2) = 0"
proof -
  define s where "s = sample_grid N R S F"
  have zv: "vbo (makeSombrero N R S F) ! (3 * w + 2) = zs s ! w" if "w < nat N * nat N" for w
    unfolding s_def using assms(1) that by (rule zs_vbo)
  have mem: "zs s ! v \<in> set (zs s)" unfolding s_def using assms(2) by (rule zs_mem)
  have ge: "z \<le> zs s ! v" if "z \<in> set (zs s)" for z
  proof -
    from that obtain w where w: "w < nat N * nat N" "z = zs s ! w"
      unfolding s_def by (auto simp: in_set_conv_nth length_zs)
    then show ?thesis using high [OF w(1)] unfolding zv [OF w(1)] zv [OF assms(2)] by simp
  qed
  have "- 1000000000 \<le> zs s ! v" using assms(5) unfolding zv [OF assms(2)] .
  with mem ge have hi: "zmax s = zs s ! v" unfolding s_def by (intro tracked_max_eq)
  have "zs s ! u \<in> set (zs s)" unfolding s_def using assms(3) by (rule zs_mem)
  then have "zmin s \<le> zs s ! u" unfolding s_def by (rule tracked_extrema)
  moreover have "1 / 1000000 \<le> zs s ! v - zs s ! u"
    using assms(6) unfolding zv [OF assms(2)] zv [OF assms(3)] .
  ultimately have wide: "1 / 1000000 \<le> zmax s - zmin s" using hi by simp
  then have "z_range (zmin s) (zmax s) = zmax s - zmin s"
    by (simp add: z_range_def Let_def)
  then have "(zs s ! v - zmin s) / z_range (zmin s) (zmax s) = 1"
    using hi wide by simp
  then have "height_colour ((zs s ! v - zmin s) / z_range (zmin s) (zmax s)) = [1, 0, 0]"
    by (simp add: height_colour_ends)
  then show ?thesis unfolding s_def by (rule cbo_vertex [OF assms(1,2)])
qed

lemma vbo_z_bound:
  assumes "3 \<le> N" and "w < nat N * nat N"
  shows "\<bar>vbo (makeSombrero N R S F) ! (3 * w + 2)\<bar> \<le> \<bar>S\<bar> * 10000"
  unfolding zs_vbo [OF assms] using zs_mem [OF assms(2)] by (rule zs_bound)

lemma height_colour_segments:
  "t < 1 / 4 \<Longrightarrow> height_colour t = [0, 4 * t, 1]"
  "1 / 4 \<le> t \<Longrightarrow> t < 1 / 2 \<Longrightarrow> height_colour t = [0, 1, 2 - 4 * t]"
  "1 / 2 \<le> t \<Longrightarrow> t < 3 / 4 \<Longrightarrow> height_colour t = [4 * t - 2, 1, 0]"
  "3 / 4 \<le> t \<Longrightarrow> height_colour t = [1, 4 - 4 * t, 0]"
  by (simp_all add: height_colour_def Let_def)

section \<open>Three builds of resolution 3\<close>

text \<open>A peaked build: frequency \<open>5000 pi\<close>, so that the centre sample is \<open>sin (pi / 2) / 1e-4\<close>.\<close>

lemma peak_centre: "vbo (makeSombrero 3 1 1 (5000 * pi)) ! 14 = 10000"
  using vbo_nth(3) [of 3 1 1 1 1 "5000 * pi"]
  by (simp add: vertex_z_def grid_coord_def sample_r_def sample_z_def Let_def)

lemma peak_edge: "vbo (makeSombrero 3 1 1 (5000 * pi)) ! 5 = 0"
  using vbo_nth(3) [of 3 0 1 1 1 "5000 * pi"] sin_npi [of 5000]
  by (simp add: vertex_z_def grid_coord_def sample_r_def sample_z_def Let_def)

lemma peak_is_max:
  assumes "w < 9"
  shows "vbo (makeSombrero 3 1 1 (5000 * pi)) ! (3 * w + 2) \<le> vbo (makeSombrero 3 1 1 (5000 * pi)) ! 14"
  using vbo_z_bound [of 3 w 1 1 "5000 * pi"] assms by (simp add: peak_centre)

text \<open>A flat build: height scale 0, so that every height is 0.\<close>

lemma flat_zero:
  assumes "j < 3" and "i < 3"
  shows "vbo (makeSombrero 3 1 0 1) ! (3 * (j * 3 + i) + 2) = 0"
  using vbo_nth(3) [of 3 j i 1 0 1] assms
  by (simp add: vertex_z_def sample_z_def)

lemma flat_zs: "zs (sample_grid 3 1 0 1) = [0, 0, 0, 0, 0, 0, 0, 0, 0]"
  by (simp add: sample_grid_sel(2) vertex_z_def sample_z_def upt_conv_Cons)

lemma flat_extrema: "zmin (sample_grid 3 1 0 1) = 0" "zmax (sample_grid 3 1 0 1) = 0"
  by (simp_all add: sample_grid_sel(3,4) flat_zs)

lemma flat_all_blue:
  assumes "v < 9"
  shows "vbo (makeSombrero 3 1 0 1) ! (3 * v + 2) = 0
       \<and> cbo (makeSombrero 3 1 0 1) ! (3 * v) = 0
       \<and> cbo (makeSombrero 3 1 0 1) ! (3 * v + 1) = 0
       \<and> cbo (makeSombrero 3 1 0 1) ! (3 * v + 2) = 1"
proof -
  have three: "(3::int) \<le> 3" by simp
  have v: "v < nat 3 * nat 3" using assms by simp
  have z: "zs (sample_grid 3 1 0 1) ! v = 0"
    using zs_mem [OF v, of 1 0 1] by (simp add: flat_zs)
  have "height_colour ((zs (sample_grid 3 1 0 1) ! v - zmin (sample_grid 3 1 0 1))
           / z_range (zmin (sample_grid 3 1 0 1)) (zmax (sample_grid 3 1 0 1))) = [0, 0, 1]"
    by (simp add: z flat_extrema z_range_def Let_def height_colour_ends)
  then have "cbo (makeSombrero 3 1 0 1) ! (3 * v) = 0
       \<and> cbo (makeSombrero 3 1 0 1) ! (3 * v + 1) = 0
       \<and> cbo (makeSombrero 3 1 0 1) ! (3 * v + 2) = 1"
    by (rule cbo_vertex [OF three v])
  moreover have "vbo (makeSombrero 3 1 0 1) ! (3 * v + 2) = 0"
    unfolding zs_vbo [OF three v] by (rule z)
  ultimately show ?thesis by blast
qed

text \<open>A build whose nine samples all fall within \<open>1e-4\<close> of the origin and have the same
  height \<open>1e10\<close>, above the value \<open>1e9\<close> from which the running minimum starts.\<close>

lemma sample_r_small:
  assumes "x * x + y * y < 1 / 100000000"
  shows "sample_r x y = 1 / 10000"
proof -
  have "sqrt (1 / 100000000) = 1 / 10000"
    by (rule real_sqrt_unique) (simp_all add: power2_eq_square)
  moreover have "sqrt (x * x + y * y) < sqrt (1 / 100000000)"
    using assms by (rule real_sqrt_less_mono)
  ultimately have "sqrt (x * x + y * y) < 1 / 10000" by (simp only:)
  then show ?thesis unfolding sample_r_def Let_def by (rule if_P)
qed

lemma tiny_grid:
  assumes "k < 3"
  shows "grid_coord 3 (1 / 100000) k * grid_coord 3 (1 / 100000) k \<le> 1 / 10000000000"
proof -
  from assms consider "k = 0" | "k = 1" | "k = 2" by linarith
  then show ?thesis by cases (simp_all add: grid_coord_def Let_def)
qed

lemma tiny_vertex_z:
  assumes "j < 3" and "i < 3"
  shows "vertex_z 3 (1 / 100000) 1000000 (5000 * pi) j i = 10000000000"
proof -
  have r: "sample_r (grid_coord 3 (1 / 100000) i) (grid_coord 3 (1 / 100000) j) = 1 / 10000"
    using tiny_grid [OF assms(1)] tiny_grid [OF assms(2)] by (intro sample_r_small) simp
  show ?thesis unfolding vertex_z_def r sample_z_def by simp
qed

lemma tiny_zs:
  "zs (sample_grid 3 (1 / 100000) 1000000 (5000 * pi))
     = [10000000000, 10000000000, 10000000000, 10000000000, 10000000000,
        10000000000, 10000000000, 10000000000, 10000000000]"
  by (simp add: sample_grid_sel(2) upt_conv_Cons tiny_vertex_z)

lemma tiny_extrema:
  "zmin (sample_grid 3 (1 / 100000) 1000000 (5000 * pi)) = 1000000000"
  "zmax (sample_grid 3 (1 / 100000) 1000000 (5000 * pi)) = 10000000000"
  by (simp_all add: sample_grid_sel(3,4) tiny_zs)

lemma beyond_sentinel_all_red:
  assumes "v < 9"
  shows "vbo (makeSombrero 3 (1 / 100000) 1000000 (5000 * pi)) ! (3 * v + 2) = 10000000000
       \<and> cbo (makeSombrero 3 (1 / 100000) 1000000 (5000 * pi)) ! (3 * v) = 1
       \<and> cbo (makeSombrero 3 (1 / 100000) 1000000 (5000 * pi)) ! (3 * v + 1) = 0
       \<and> cbo (makeSombrero 3 (1 / 100000) 1000000 (5000 * pi)) ! (3 * v + 2) = 0"
proof -
  have three: "(3::int) \<le> 3" by simp
  have v: "v < nat 3 * nat 3" using assms by simp
  have z: "zs (sample_grid 3 (1 / 100000) 1000000 (5000 * pi)) ! v = 10000000000"
    using zs_mem [OF v, of "1 / 100000" 1000000 "5000 * pi"] by (simp add: tiny_zs)
  have "height_colour
          ((zs (sample_grid 3 (1 / 100000) 1000000 (5000 * pi)) ! v
              - zmin (sample_grid 3 (1 / 100000) 1000000 (5000 * pi)))
           / z_range (zmin (sample_grid 3 (1 / 100000) 1000000 (5000 * pi)))
               (zmax (sample_grid 3 (1 / 100000) 1000000 (5000 * pi)))) = [1, 0, 0]"
    by (simp add: z tiny_extrema z_range_def Let_def height_colour_ends)
  then have "cbo (makeSombrero 3 (1 / 100000) 1000000 (5000 * pi)) ! (3 * v) = 1
       \<and> cbo (makeSombrero 3 (1 / 100000) 1000000 (5000 * pi)) ! (3 * v + 1) = 0
       \<and> cbo (makeSombrero 3 (1 / 100000) 1000000 (5000 * pi)) ! (3 * v + 2) = 0"
    by (rule cbo_vertex [OF three v])
  moreover have "vbo (makeSombrero 3 (1 / 100000) 1000000 (5000 * pi)) ! (3 * v + 2) = 10000000000"
    unfolding zs_vbo [OF three v] by (rule z)
  ultimately show ?thesis by blast
qed

section \<open>The builder within the range of int\<close>

lemma sint_count:
  assumes "n < 2147483648"
  shows "sint (word_of_nat n :: 32 word) = int n"
  using assms by (simp add: signed_of_nat signed_take_bit_int_eq_self)

lemma small_products:
  fixes N :: int
  assumes "3 \<le> N" and "N \<le> 18919"
  shows "N * N \<le> 357928561" and "(N - 1) * (N - 1) \<le> 357890724"
    and "0 \<le> N * N" and "0 \<le> (N - 1) * (N - 1)"
proof -
  have "N * N \<le> 18919 * 18919" using assms by (intro mult_mono) simp_all
  then show "N * N \<le> 357928561" by simp
  have "(N - 1) * (N - 1) \<le> 18918 * 18918" using assms by (intro mult_mono) simp_all
  then show "(N - 1) * (N - 1) \<le> 357890724" by simp
  show "0 \<le> N * N" "0 \<le> (N - 1) * (N - 1)" by simp_all
qed

lemma no_int_overflow:
  fixes N :: int
  assumes "3 \<le> N" and "N \<le> 18919"
  shows "\<not> int_overflow (N * N)" and "\<not> int_overflow (N * N * 3)"
    and "\<not> int_overflow ((N - 1) * (N - 1))" and "\<not> int_overflow ((N - 1) * (N - 1) * 6)"
  unfolding int_overflow_def INT_MAX_def
  using small_products [OF assms] by linarith+

lemma makeSombrero_int_Some:
  assumes "3 \<le> N" and "N \<le> 18919"
  shows "makeSombrero_int N radius zscale freq = Some (makeSombrero N radius zscale freq)"
  using no_int_overflow [OF assms] assms(1)
  by (simp add: makeSombrero_int_def Let_def)

lemma indexCount_small:
  assumes "3 \<le> N" and "N \<le> 18919"
  shows "indexCount (makeSombrero N radius zscale freq) = 6 * ((N - 1) * (N - 1))"
proof -
  have "int (length (index_pass N)) = 6 * ((N - 1) * (N - 1))"
    using assms(1) by (simp add: length_index_pass nat_mult_distrib)
  moreover have "6 * ((N - 1) * (N - 1)) < 2147483648"
    using small_products(2) [OF assms] by linarith
  ultimately have "length (index_pass N) < 2147483648" by linarith
  then have "sint (word_of_nat (length (index_pass N)) :: 32 word) = int (length (index_pass N))"
    by (rule sint_count)
  then show ?thesis
    using assms(1) \<open>int (length (index_pass N)) = 6 * ((N - 1) * (N - 1))\<close>
    by (simp add: makeSombrero_sel)
qed

section \<open>Sampling within the range of float\<close>

lemma fl_Fin: "\<bar>x\<bar> \<le> FLT_MAX \<Longrightarrow> fl x = Fin x"
  by (auto simp: fl_def)

lemma pos_f_concat:
  "pos_f N R S F =
     concat (map (\<lambda>j. concat (map (vertex_f N R S F (grid_coord_f N R j)) [0..<nat N])) [0..<nat N])"
  unfolding pos_f_def Let_def fold_append_concat
  by (simp add: fold_append_concat)

lemma length_vertex_f: "length (vertex_f N R S F y i) = 3"
  by (simp add: vertex_f_def Let_def)

lemma length_vertex_f_row: "length (concat (map (vertex_f N R S F y) [0..<n])) = n * 3"
  using length_concat_uniform [of "[0..<n]" "vertex_f N R S F y" 3]
  by (simp add: length_vertex_f)

lemma pos_f_nth:
  assumes "j < nat N" and "i < nat N" and "k < 3"
  shows "pos_f N R S F ! (3 * (j * nat N + i) + k) = vertex_f N R S F (grid_coord_f N R j) i ! k"
proof -
  define n where "n = nat N"
  have ik: "i * 3 + k < n * 3" using assms n_def by simp
  have "pos_f N R S F ! (j * (n * 3) + (i * 3 + k))
      = concat (map (vertex_f N R S F (grid_coord_f N R j)) [0..<n]) ! (i * 3 + k)"
    unfolding pos_f_concat n_def [symmetric]
    using nth_concat_uniform [of "[0..<n]"
        "\<lambda>j. concat (map (vertex_f N R S F (grid_coord_f N R j)) [0..<n])" "n * 3" j "i * 3 + k"]
      assms ik n_def by (simp add: length_vertex_f_row)
  also have "\<dots> = vertex_f N R S F (grid_coord_f N R j) i ! k"
    using nth_concat_uniform [of "[0..<n]" "vertex_f N R S F (grid_coord_f N R j)" 3 i k] assms n_def
    by (simp add: length_vertex_f)
  finally show ?thesis
    by (simp add: n_def algebra_simps)
qed

lemma grid_coord_f_Fin:
  assumes "3 \<le> N" and "k < nat N" and "2 * \<bar>radius\<bar> \<le> FLT_MAX"
  shows "grid_coord_f N radius k = Fin (grid_coord N radius k)"
    and "\<bar>grid_coord N radius k\<bar> \<le> \<bar>radius\<bar>"
proof -
  define t where "t = real k / real_of_int (N - 1)"
  have t: "0 \<le> t" "t \<le> 1" using grid_fraction [OF assms(1,2)] by (simp_all add: t_def)
  have d: "real_of_int (N - 1) \<noteq> 0" using assms(1) by simp
  have big: "1 \<le> FLT_MAX" by (simp add: FLT_MAX_def)
  have "\<bar>t\<bar> \<le> FLT_MAX" using t big by linarith
  then have "fl t = Fin t" by (rule fl_Fin)
  then have a: "fdiv (Fin (real k)) (Fin (real_of_int (N - 1))) = Fin t"
    using d by (simp add: t_def)
  have "\<bar>radius + radius\<bar> \<le> FLT_MAX" using assms(3) by linarith
  then have "fl (radius + radius) = Fin (radius + radius)" by (rule fl_Fin)
  then have b: "fsub (Fin radius) (Fin (- radius)) = Fin (radius + radius)"
    by (simp add: fsub_def)
  have "\<bar>t * (radius + radius)\<bar> = t * (2 * \<bar>radius\<bar>)"
    using t by (simp add: abs_mult)
  also have "\<dots> \<le> 1 * (2 * \<bar>radius\<bar>)" using t by (intro mult_right_mono) simp_all
  finally have "\<bar>t * (radius + radius)\<bar> \<le> FLT_MAX" using assms(3) by linarith
  then have "fl (t * (radius + radius)) = Fin (t * (radius + radius))" by (rule fl_Fin)
  then have c: "fmul (Fin t) (Fin (radius + radius)) = Fin (t * (radius + radius))"
    by simp
  have "- radius + t * (radius + radius) = radius * (2 * t - 1)" by (simp add: algebra_simps)
  moreover have "\<bar>2 * t - 1\<bar> \<le> 1" using t by linarith
  ultimately have e: "\<bar>- radius + t * (radius + radius)\<bar> \<le> \<bar>radius\<bar>"
    using mult_left_mono [of "\<bar>2 * t - 1\<bar>" 1 "\<bar>radius\<bar>"] by (simp add: abs_mult)
  then have "\<bar>- radius + t * (radius + radius)\<bar> \<le> FLT_MAX" using assms(3) by linarith
  then have "fl (- radius + t * (radius + radius)) = Fin (- radius + t * (radius + radius))"
    by (rule fl_Fin)
  then have f: "fadd (Fin (- radius)) (Fin (t * (radius + radius)))
      = Fin (- radius + t * (radius + radius))"
    by simp
  have g: "grid_coord N radius k = - radius + t * (radius + radius)"
    by (simp add: grid_coord_def Let_def t_def)
  show "grid_coord_f N radius k = Fin (grid_coord N radius k)"
    by (simp only: grid_coord_f_def Let_def fneg.simps a b c f g)
  show "\<bar>grid_coord N radius k\<bar> \<le> \<bar>radius\<bar>"
    unfolding g by (rule e)
qed

lemma scaled_Fin:
  assumes "radius \<noteq> 0" and "\<bar>x\<bar> \<le> \<bar>radius\<bar>"
  shows "fmul (fdiv (Fin x) (Fin radius)) (Fin 1.5) = Fin ((x / radius) * 1.5)"
    and "\<bar>(x / radius) * 1.5\<bar> \<le> 3 / 2"
proof -
  have q: "\<bar>x / radius\<bar> \<le> 1" using assms by simp
  have big: "3 / 2 \<le> FLT_MAX" by (simp add: FLT_MAX_def)
  have "\<bar>x / radius\<bar> \<le> FLT_MAX" using q big by linarith
  then have "fl (x / radius) = Fin (x / radius)" by (rule fl_Fin)
  then have a: "fdiv (Fin x) (Fin radius) = Fin (x / radius)"
    using assms(1) by simp
  show s: "\<bar>(x / radius) * 1.5\<bar> \<le> 3 / 2" using q by (simp add: abs_mult)
  then have "\<bar>(x / radius) * 1.5\<bar> \<le> FLT_MAX" using big by linarith
  then have "fl ((x / radius) * 1.5) = Fin ((x / radius) * 1.5)" by (rule fl_Fin)
  then show "fmul (fdiv (Fin x) (Fin radius)) (Fin 1.5) = Fin ((x / radius) * 1.5)"
    by (simp only: a fmul.simps)
qed

lemma square_bound:
  fixes u :: real
  assumes "\<bar>u\<bar> \<le> 1000000000000000000"
  shows "0 \<le> u * u" and "u * u \<le> 1000000000000000000000000000000000000"
proof -
  show "0 \<le> u * u" by simp
  have "u * u = \<bar>u\<bar> * \<bar>u\<bar>" by simp
  also have "\<dots> \<le> 1000000000000000000 * 1000000000000000000"
    using assms by (intro mult_mono) simp_all
  also have "\<dots> = (1000000000000000000000000000000000000 :: real)" by simp
  finally show "u * u \<le> 1000000000000000000000000000000000000" .
qed

lemma below_FLT_MAX:
  assumes "0 \<le> a" and "a \<le> 2000000000000000000000000000000000000"
  shows "fl a = Fin a"
proof (rule fl_Fin)
  have "\<bar>a\<bar> = a" using assms(1) by simp
  also have "\<dots> \<le> 2000000000000000000000000000000000000" by (rule assms(2))
  also have "\<dots> \<le> FLT_MAX" by (simp add: FLT_MAX_def)
  finally show "\<bar>a\<bar> \<le> FLT_MAX" .
qed

lemma eps_f_bounds: "0 < eps_f" "1 / eps_f \<le> 10001" "eps_f \<le> 2000000000000000000"
  by (simp_all add: eps_f_def)

lemma sample_r_f_Fin:
  assumes "\<bar>x\<bar> \<le> 1000000000000000000" and "\<bar>y\<bar> \<le> 1000000000000000000"
  shows "\<exists>r. sample_r_f (Fin x) (Fin y) = Fin r \<and> eps_f \<le> r \<and> r \<le> 2000000000000000000"
proof -
  note xx = square_bound [OF assms(1)] and yy = square_bound [OF assms(2)]
  have s: "0 \<le> x * x + y * y" "x * x + y * y \<le> 2000000000000000000000000000000000000"
    using xx yy by linarith+
  have "x * x \<le> 2000000000000000000000000000000000000"
    "y * y \<le> 2000000000000000000000000000000000000"
    using xx yy by linarith+
  then have fl: "fl (x * x) = Fin (x * x)" "fl (y * y) = Fin (y * y)"
      "fl (x * x + y * y) = Fin (x * x + y * y)"
    using xx(1) yy(1) s by (simp_all only: below_FLT_MAX)
  have nonneg: "\<not> x * x + y * y < 0" using s(1) by (rule leD)
  have r: "fsqrt (fadd (fmul (Fin x) (Fin x)) (fmul (Fin y) (Fin y))) = Fin (sqrt (x * x + y * y))"
    by (simp only: fmul.simps fadd.simps fsqrt.simps fl nonneg if_False)
  have "sqrt (x * x + y * y) \<le> \<bar>x\<bar> + \<bar>y\<bar>"
    using sqrt_sum_squares_le_sum_abs [of x y] by (simp only: power2_eq_square)
  then have hi: "sqrt (x * x + y * y) \<le> 2000000000000000000" using assms by linarith
  show ?thesis
  proof (cases "sqrt (x * x + y * y) < eps_f")
    case True
    then have "sample_r_f (Fin x) (Fin y) = Fin eps_f"
      by (simp only: sample_r_f_def Let_def r flt.simps if_True)
    then show ?thesis using eps_f_bounds(3) by blast
  next
    case False
    then have "sample_r_f (Fin x) (Fin y) = Fin (sqrt (x * x + y * y))"
      by (simp only: sample_r_f_def Let_def r flt.simps if_False)
    moreover have "eps_f \<le> sqrt (x * x + y * y)" using False by (rule leI)
    ultimately show ?thesis using hi by blast
  qed
qed

lemma sample_z_f_Fin:
  assumes "eps_f \<le> r" and "r \<le> 2000000000000000000"
    and "\<bar>freq\<bar> \<le> 1000000000000000000" and "\<bar>zscale\<bar> \<le> 1000000000000000000000000000000"
  shows "sample_z_f zscale freq (Fin r) = Fin (sample_z zscale freq r)"
proof -
  have r: "0 < r" using assms(1) eps_f_bounds(1) by (rule less_le_trans [rotated])
  have "\<bar>freq * r\<bar> = \<bar>freq\<bar> * r" using r by (simp add: abs_mult)
  also have "\<dots> \<le> 1000000000000000000 * 2000000000000000000"
    using assms(2,3) r by (intro mult_mono) simp_all
  also have "\<dots> \<le> FLT_MAX" by (simp add: FLT_MAX_def)
  finally have "\<bar>freq * r\<bar> \<le> FLT_MAX" .
  then have a: "fl (freq * r) = Fin (freq * r)" by (rule fl_Fin)
  have "\<bar>sin (freq * r) / r\<bar> = \<bar>sin (freq * r)\<bar> / r" using r by simp
  also have "\<dots> \<le> 1 / r" using r by (simp add: divide_right_mono)
  also have "\<dots> \<le> 1 / eps_f" using assms(1) eps_f_bounds(1) by (simp add: frac_le)
  also have "\<dots> \<le> 10001" by (rule eps_f_bounds(2))
  finally have q: "\<bar>sin (freq * r) / r\<bar> \<le> 10001" .
  note q
  also have "(10001 :: real) \<le> FLT_MAX" by (simp add: FLT_MAX_def)
  finally have "\<bar>sin (freq * r) / r\<bar> \<le> FLT_MAX" .
  then have b: "fl (sin (freq * r) / r) = Fin (sin (freq * r) / r)" by (rule fl_Fin)
  have "\<bar>zscale * (sin (freq * r) / r)\<bar> = \<bar>zscale\<bar> * \<bar>sin (freq * r) / r\<bar>"
    by (rule abs_mult)
  also have "\<dots> \<le> 1000000000000000000000000000000 * 10001"
    using assms(4) q by (intro mult_mono) simp_all
  also have "\<dots> \<le> FLT_MAX" by (simp add: FLT_MAX_def)
  finally have "\<bar>zscale * (sin (freq * r) / r)\<bar> \<le> FLT_MAX" .
  then have c: "fl (zscale * (sin (freq * r) / r)) = Fin (zscale * (sin (freq * r) / r))"
    by (rule fl_Fin)
  have rz: "(r = 0) = False" using r by simp
  show ?thesis
    by (simp only: sample_z_f_def sample_z_def fmul.simps fsin.simps fdiv.simps a b c rz if_False)
qed

lemma vbo_f_nth:
  assumes "3 \<le> N" and "j < nat N" and "i < nat N" and "k < 3"
  shows "vbo_f N R S F ! (3 * (j * nat N + i) + k) = vertex_f N R S F (grid_coord_f N R j) i ! k"
  using assms(1) pos_f_nth [OF assms(2,3,4)] by (simp add: vbo_f_def)

lemma vbo_f_xy:
  assumes "0 < radius" and "2 * radius \<le> FLT_MAX" and "3 \<le> N" and "j < nat N" and "i < nat N"
  shows "vbo_f N radius zscale freq ! (3 * (j * nat N + i))
           = Fin ((grid_coord N radius i / radius) * 1.5)"
    and "vbo_f N radius zscale freq ! (3 * (j * nat N + i) + 1)
           = Fin ((grid_coord N radius j / radius) * 1.5)"
proof -
  have r: "radius \<noteq> 0" "2 * \<bar>radius\<bar> \<le> FLT_MAX" using assms(1,2) by simp_all
  note gi = grid_coord_f_Fin [OF assms(3,5) r(2)] and gj = grid_coord_f_Fin [OF assms(3,4) r(2)]
  show "vbo_f N radius zscale freq ! (3 * (j * nat N + i))
           = Fin ((grid_coord N radius i / radius) * 1.5)"
    using vbo_f_nth [OF assms(3,4,5), of 0 radius zscale freq] scaled_Fin(1) [OF r(1) gi(2)]
    by (simp add: vertex_f_def Let_def gi(1))
  show "vbo_f N radius zscale freq ! (3 * (j * nat N + i) + 1)
           = Fin ((grid_coord N radius j / radius) * 1.5)"
    using vbo_f_nth [OF assms(3,4,5), of 1 radius zscale freq] scaled_Fin(1) [OF r(1) gj(2)]
    by (simp add: vertex_f_def Let_def gj(1))
qed

lemma scaled_range:
  assumes "0 < radius" and "3 \<le> N" and "k < nat N"
  shows "- (3 / 2) \<le> (grid_coord N radius k / radius) * 1.5"
    and "(grid_coord N radius k / radius) * 1.5 \<le> 3 / 2"
    and "k = 0 \<Longrightarrow> (grid_coord N radius k / radius) * 1.5 = - (3 / 2)"
    and "k = nat N - 1 \<Longrightarrow> (grid_coord N radius k / radius) * 1.5 = 3 / 2"
proof -
  define t where "t = real k / real_of_int (N - 1)"
  have t: "0 \<le> t" "t \<le> 1" using grid_fraction [OF assms(2,3)] by (simp_all add: t_def)
  have eq: "(grid_coord N radius k / radius) * 1.5 = 3 * t - 3 / 2"
    using grid_coord_scaled [OF assms(1), of N k] by (simp add: t_def)
  show "- (3 / 2) \<le> (grid_coord N radius k / radius) * 1.5"
    "(grid_coord N radius k / radius) * 1.5 \<le> 3 / 2"
    unfolding eq using t by linarith+
  show "(grid_coord N radius k / radius) * 1.5 = - (3 / 2)" if "k = 0"
    unfolding eq using that by (simp add: t_def)
  show "(grid_coord N radius k / radius) * 1.5 = 3 / 2" if "k = nat N - 1"
  proof -
    have "real k = real_of_int (N - 1)" using that assms(2) by linarith
    moreover have "0 < real_of_int (N - 1)" using assms(2) by simp
    ultimately have "t = 1" by (simp add: t_def)
    then show ?thesis unfolding eq by simp
  qed
qed

lemma sample_r_f_origin: "sample_r_f (Fin 0) (Fin 0) = Fin eps_f"
  by (simp add: sample_r_f_def Let_def fl_def FLT_MAX_def eps_f_def)

lemma vbo_f_z:
  assumes "3 \<le> N" and "j < nat N" and "i < nat N"
  shows "vbo_f N radius zscale freq ! (3 * (j * nat N + i) + 2)
       = sample_z_f zscale freq (sample_r_f (grid_coord_f N radius i) (grid_coord_f N radius j))"
  using vbo_f_nth [OF assms, of 2 radius zscale freq] by (simp add: vertex_f_def Let_def)

lemma sample_f_finite:
  assumes "3 \<le> N" and "j < nat N" and "i < nat N"
    and "\<bar>radius\<bar> \<le> 1000000000000000000" and "\<bar>freq\<bar> \<le> 1000000000000000000"
    and "\<bar>zscale\<bar> \<le> 1000000000000000000000000000000"
  shows "\<exists>r. sample_r_f (grid_coord_f N radius i) (grid_coord_f N radius j) = Fin r
           \<and> eps_f \<le> r \<and> r \<le> 2000000000000000000
           \<and> sample_z_f zscale freq (Fin r) = Fin (sample_z zscale freq r)"
proof -
  have "2 * \<bar>radius\<bar> \<le> 2000000000000000000" using assms(4) by simp
  also have "\<dots> \<le> FLT_MAX" by (simp add: FLT_MAX_def)
  finally have r: "2 * \<bar>radius\<bar> \<le> FLT_MAX" .
  note gi = grid_coord_f_Fin [OF assms(1,3) r] and gj = grid_coord_f_Fin [OF assms(1,2) r]
  have x: "\<bar>grid_coord N radius i\<bar> \<le> 1000000000000000000" using gi(2) assms(4) by linarith
  have y: "\<bar>grid_coord N radius j\<bar> \<le> 1000000000000000000" using gj(2) assms(4) by linarith
  from sample_r_f_Fin [OF x y] obtain r where
    sr: "sample_r_f (Fin (grid_coord N radius i)) (Fin (grid_coord N radius j)) = Fin r"
      and lo: "eps_f \<le> r" and hi: "r \<le> 2000000000000000000"
    by blast
  have a: "sample_r_f (grid_coord_f N radius i) (grid_coord_f N radius j) = Fin r"
    unfolding gi(1) gj(1) by (rule sr)
  have "sample_z_f zscale freq (Fin r) = Fin (sample_z zscale freq r)"
    by (rule sample_z_f_Fin [OF lo hi assms(5,6)])
  with a lo hi show ?thesis by blast
qed

section \<open>The claims\<close>

text \<open>
  C1 (as amended). For every build whose parameters are finite with \<open>|radius| \<le> 1e18\<close>,
  \<open>|freq| \<le> 1e18\<close> and \<open>|zscale| \<le> 1e30\<close>, so that no operation of the builder leaves the range
  of \<^verbatim>\<open>float\<close>, and for every vertex, each colour component lies in \<open>[0, 1]\<close>. A vertex whose height is the least of all sampled heights, and at most \<open>1e9\<close>,
  has the colour \<open>(0, 0, 1)\<close>. A vertex whose height is the greatest of all sampled
  heights, at least \<open>-1e9\<close> and at least \<open>1e-6\<close> above some other height, has the colour
  \<open>(1, 0, 0)\<close>. The ramp has four linear segments, each varying one channel:
  \<open>[0, .25)\<close> from blue \<open>(0, 0, 1)\<close> to cyan \<open>(0, 1, 1)\<close>, \<open>[.25, .5)\<close> from cyan to green
  \<open>(0, 1, 0)\<close>, \<open>[.5, .75)\<close> from green to yellow \<open>(1, 1, 0)\<close>, and \<open>[.75, 1]\<close> from yellow
  to red \<open>(1, 0, 0)\<close>.
\<close>

theorem colour_ramp:
  fixes N :: int and radius zscale freq t :: real and v :: nat
  defines "m \<equiv> makeSombrero N radius zscale freq"
  assumes "3 \<le> N" and "v < nat (N * N)"
    and "\<bar>radius\<bar> \<le> 10 ^ 18" and "\<bar>freq\<bar> \<le> 10 ^ 18" and "\<bar>zscale\<bar> \<le> 10 ^ 30"
  shows "(\<forall>k<3. 0 \<le> cbo m ! (3 * v + k)
              \<and> cbo m ! (3 * v + k) \<le> 1)
       \<and> ((\<forall>u<nat (N * N). vbo m ! (3 * v + 2)
                              \<le> vbo m ! (3 * u + 2))
            \<and> vbo m ! (3 * v + 2) \<le> 1000000000
          \<longrightarrow> cbo m ! (3 * v) = 0
            \<and> cbo m ! (3 * v + 1) = 0
            \<and> cbo m ! (3 * v + 2) = 1)
       \<and> ((\<forall>u<nat (N * N). vbo m ! (3 * u + 2)
                              \<le> vbo m ! (3 * v + 2))
            \<and> - 1000000000 \<le> vbo m ! (3 * v + 2)
            \<and> (\<exists>u<nat (N * N). 1 / 1000000 \<le> vbo m ! (3 * v + 2)
                                               - vbo m ! (3 * u + 2))
          \<longrightarrow> cbo m ! (3 * v) = 1
            \<and> cbo m ! (3 * v + 1) = 0
            \<and> cbo m ! (3 * v + 2) = 0)
       \<and> height_colour 0 = [0, 0, 1] \<and> height_colour (1 / 4) = [0, 1, 1]
       \<and> height_colour (1 / 2) = [0, 1, 0] \<and> height_colour (3 / 4) = [1, 1, 0]
       \<and> height_colour 1 = [1, 0, 0]
       \<and> (t < 1 / 4 \<longrightarrow> height_colour t = [0, 4 * t, 1])
       \<and> (1 / 4 \<le> t \<and> t < 1 / 2 \<longrightarrow> height_colour t = [0, 1, 2 - 4 * t])
       \<and> (1 / 2 \<le> t \<and> t < 3 / 4 \<longrightarrow> height_colour t = [4 * t - 2, 1, 0])
       \<and> (3 / 4 \<le> t \<longrightarrow> height_colour t = [1, 4 - 4 * t, 0])"
proof -
  have sq: "nat (N * N) = nat N * nat N" using assms(2) by (simp add: nat_square)
  have v: "v < nat N * nat N" using assms(3) sq by simp
  have unit: "\<forall>k<3. 0 \<le> cbo (makeSombrero N radius zscale freq) ! (3 * v + k)
              \<and> cbo (makeSombrero N radius zscale freq) ! (3 * v + k) \<le> 1"
    using colour_unit [OF assms(2) v] by blast
  have lo: "cbo (makeSombrero N radius zscale freq) ! (3 * v) = 0
            \<and> cbo (makeSombrero N radius zscale freq) ! (3 * v + 1) = 0
            \<and> cbo (makeSombrero N radius zscale freq) ! (3 * v + 2) = 1"
    if "\<forall>u<nat (N * N). vbo (makeSombrero N radius zscale freq) ! (3 * v + 2)
                              \<le> vbo (makeSombrero N radius zscale freq) ! (3 * u + 2)"
      and "vbo (makeSombrero N radius zscale freq) ! (3 * v + 2) \<le> 1000000000"
    using that sq by (intro min_vertex_colour [OF assms(2) v]) simp_all
  have hi: "cbo (makeSombrero N radius zscale freq) ! (3 * v) = 1
            \<and> cbo (makeSombrero N radius zscale freq) ! (3 * v + 1) = 0
            \<and> cbo (makeSombrero N radius zscale freq) ! (3 * v + 2) = 0"
    if all: "\<forall>u<nat (N * N). vbo (makeSombrero N radius zscale freq) ! (3 * u + 2)
                              \<le> vbo (makeSombrero N radius zscale freq) ! (3 * v + 2)"
      and sent: "- 1000000000 \<le> vbo (makeSombrero N radius zscale freq) ! (3 * v + 2)"
      and "\<exists>u<nat (N * N). 1 / 1000000 \<le> vbo (makeSombrero N radius zscale freq) ! (3 * v + 2)
                                               - vbo (makeSombrero N radius zscale freq) ! (3 * u + 2)"
  proof -
    from that(3) obtain u where u: "u < nat N * nat N"
      "1 / 1000000 \<le> vbo (makeSombrero N radius zscale freq) ! (3 * v + 2)
                       - vbo (makeSombrero N radius zscale freq) ! (3 * u + 2)"
      using sq by auto
    show ?thesis
      using all sq by (intro max_vertex_colour [OF assms(2) v u(1) _ sent u(2)]) simp
  qed
  show ?thesis
    unfolding m_def
    using unit lo hi height_colour_ends height_colour_segments [of t] by blast
qed

theorem colour_ramp_witness:
  "(3::int) \<le> 3 \<and> (4::nat) < nat (3 * 3) \<and>
   \<bar>1::real\<bar> \<le> 10 ^ 18 \<and> \<bar>5000 * pi\<bar> \<le> 10 ^ 18 \<and> \<bar>1::real\<bar> \<le> 10 ^ 30 \<and> \<bar>0::real\<bar> \<le> 10 ^ 30 \<and>
   - 1000000000 \<le> vbo (makeSombrero 3 1 1 (5000 * pi)) ! (3 * 4 + 2) \<and>
   1 / 1000000 \<le> vbo (makeSombrero 3 1 1 (5000 * pi)) ! (3 * 4 + 2)
                   - vbo (makeSombrero 3 1 1 (5000 * pi)) ! (3 * 1 + 2) \<and>
   cbo (makeSombrero 3 1 1 (5000 * pi)) ! (3 * 4) = 1 \<and>
   cbo (makeSombrero 3 1 1 (5000 * pi)) ! (3 * 4 + 1) = 0 \<and>
   cbo (makeSombrero 3 1 1 (5000 * pi)) ! (3 * 4 + 2) = 0 \<and>
   vbo (makeSombrero 3 1 0 1) ! (3 * 0 + 2) \<le> 1000000000 \<and>
   cbo (makeSombrero 3 1 0 1) ! (3 * 0) = 0 \<and>
   cbo (makeSombrero 3 1 0 1) ! (3 * 0 + 1) = 0 \<and>
   cbo (makeSombrero 3 1 0 1) ! (3 * 0 + 2) = 1"
proof -
  have n: "(3::int) \<le> 3" "(4::nat) < nat (3 * 3)" "(0::nat) < nat (3 * 3)" by simp_all
  have "\<bar>5000 * pi\<bar> \<le> 5000 * 4" using pi_less_4 pi_gt_zero by simp
  then have m: "\<bar>1::real\<bar> \<le> 10 ^ 18" "\<bar>5000 * pi\<bar> \<le> 10 ^ 18" "\<bar>1::real\<bar> \<le> 10 ^ 30"
    "\<bar>0::real\<bar> \<le> 10 ^ 30"
    by simp_all
  have a: "\<forall>u<nat (3 * 3). vbo (makeSombrero 3 1 1 (5000 * pi)) ! (3 * u + 2)
                            \<le> vbo (makeSombrero 3 1 1 (5000 * pi)) ! (3 * 4 + 2)"
    using peak_is_max by simp
  have b: "- 1000000000 \<le> vbo (makeSombrero 3 1 1 (5000 * pi)) ! (3 * 4 + 2)"
    by (simp add: peak_centre)
  have c: "1 / 1000000 \<le> vbo (makeSombrero 3 1 1 (5000 * pi)) ! (3 * 4 + 2)
                   - vbo (makeSombrero 3 1 1 (5000 * pi)) ! (3 * 1 + 2)"
    by (simp add: peak_centre peak_edge)
  have c': "\<exists>u<nat (3 * 3). 1 / 1000000 \<le> vbo (makeSombrero 3 1 1 (5000 * pi)) ! (3 * 4 + 2)
                   - vbo (makeSombrero 3 1 1 (5000 * pi)) ! (3 * u + 2)"
    using c by (intro exI [of _ 1]) simp
  have z: "vbo (makeSombrero 3 1 0 1) ! (3 * u + 2) = 0" if "u < 9" for u
    using flat_zero [of "u div 3" "u mod 3"] that by (simp add: less_mult_imp_div_less)
  have d: "\<forall>u<nat (3 * 3). vbo (makeSombrero 3 1 0 1) ! (3 * 0 + 2)
                            \<le> vbo (makeSombrero 3 1 0 1) ! (3 * u + 2)"
  proof (intro allI impI)
    fix u :: nat
    assume "u < nat (3 * 3)"
    then have "u < 9" by simp
    from z [OF this] z [of 0]
    show "vbo (makeSombrero 3 1 0 1) ! (3 * 0 + 2) \<le> vbo (makeSombrero 3 1 0 1) ! (3 * u + 2)"
      by simp
  qed
  have e: "vbo (makeSombrero 3 1 0 1) ! (3 * 0 + 2) \<le> 1000000000"
    using z [of 0] by simp
  show ?thesis
    using colour_ramp [where N = 3 and v = 4 and radius = 1 and zscale = 1 and freq = "5000 * pi" and t = 0]
      colour_ramp [where N = 3 and v = 0 and radius = 1 and zscale = 0 and freq = 1 and t = 0]
      n m a b c c' d e by blast
qed

text \<open>
  C1 as stated fails in the build \<open>(3, 1, 1, 5000 pi)\<close>: the centre vertex, number 4, has
  the greatest of the nine heights (positions 2, 5, ..., 26 of the position buffer), and
  its colour is \<open>(1, 0, 0)\<close>, not \<open>(1, 1, 0)\<close>.
\<close>

theorem peak_vertex_is_red:
  "vbo (makeSombrero 3 1 1 (5000 * pi)) ! 2 \<le> vbo (makeSombrero 3 1 1 (5000 * pi)) ! 14 \<and>
   vbo (makeSombrero 3 1 1 (5000 * pi)) ! 5 \<le> vbo (makeSombrero 3 1 1 (5000 * pi)) ! 14 \<and>
   vbo (makeSombrero 3 1 1 (5000 * pi)) ! 8 \<le> vbo (makeSombrero 3 1 1 (5000 * pi)) ! 14 \<and>
   vbo (makeSombrero 3 1 1 (5000 * pi)) ! 11 \<le> vbo (makeSombrero 3 1 1 (5000 * pi)) ! 14 \<and>
   vbo (makeSombrero 3 1 1 (5000 * pi)) ! 17 \<le> vbo (makeSombrero 3 1 1 (5000 * pi)) ! 14 \<and>
   vbo (makeSombrero 3 1 1 (5000 * pi)) ! 20 \<le> vbo (makeSombrero 3 1 1 (5000 * pi)) ! 14 \<and>
   vbo (makeSombrero 3 1 1 (5000 * pi)) ! 23 \<le> vbo (makeSombrero 3 1 1 (5000 * pi)) ! 14 \<and>
   vbo (makeSombrero 3 1 1 (5000 * pi)) ! 26 \<le> vbo (makeSombrero 3 1 1 (5000 * pi)) ! 14 \<and>
   cbo (makeSombrero 3 1 1 (5000 * pi)) ! 12 = 1 \<and>
   cbo (makeSombrero 3 1 1 (5000 * pi)) ! 13 = 0 \<and>
   cbo (makeSombrero 3 1 1 (5000 * pi)) ! 14 = 0 \<and>
   [cbo (makeSombrero 3 1 1 (5000 * pi)) ! 12, cbo (makeSombrero 3 1 1 (5000 * pi)) ! 13,
    cbo (makeSombrero 3 1 1 (5000 * pi)) ! 14] \<noteq> [1, 1, 0]"
proof -
  have le: "vbo (makeSombrero 3 1 1 (5000 * pi)) ! (3 * w + 2)
            \<le> vbo (makeSombrero 3 1 1 (5000 * pi)) ! (3 * 4 + 2)" if "w < nat 3 * nat 3" for w
    using peak_is_max [of w] that by simp
  have "cbo (makeSombrero 3 1 1 (5000 * pi)) ! (3 * 4) = 1
      \<and> cbo (makeSombrero 3 1 1 (5000 * pi)) ! (3 * 4 + 1) = 0
      \<and> cbo (makeSombrero 3 1 1 (5000 * pi)) ! (3 * 4 + 2) = 0"
    by (rule max_vertex_colour [where u = 1, OF _ _ _ le]) (simp_all add: peak_centre peak_edge)
  then show ?thesis
    using peak_is_max [of 0] peak_is_max [of 1] peak_is_max [of 2] peak_is_max [of 3]
      peak_is_max [of 5] peak_is_max [of 6] peak_is_max [of 7] peak_is_max [of 8]
    by (simp add: numeral_2_eq_2 [symmetric])
qed

text \<open>
  C2 (as amended). For every resolution \<open>3 \<le> N \<le> 256\<close> the six indices emitted for the cell
  in row \<open>j\<close> and column \<open>i\<close> are, as natural numbers, the grid positions
  \<open>a, c, b, b, c, d\<close> with \<open>a = j N + i\<close>, \<open>b = j N + (i + 1)\<close>, \<open>c = (j + 1) N + i\<close> and
  \<open>d = (j + 1) N + (i + 1)\<close>. Above 256 the 16-bit index no longer holds every position:
  at \<open>N = 257\<close> the last index emitted is 512 and not \<open>256 * 257 + 256 = 66048\<close>.
\<close>

theorem cell_corner_indices:
  assumes "3 \<le> N" and "N \<le> 256" and "j < nat (N - 1)" and "i < nat (N - 1)"
  shows "map (\<lambda>w. int (unat w))
           (take 6 (drop (6 * (j * nat (N - 1) + i)) (ibo (makeSombrero N radius zscale freq))))
       = [int j * N + int i, (int j + 1) * N + int i, int j * N + (int i + 1),
          int j * N + (int i + 1), (int j + 1) * N + int i, (int j + 1) * N + (int i + 1)]"
proof -
  have N: "int j + 2 \<le> N" "int i + 2 \<le> N" using assms by linarith+
  define a b c d where "a = int j * N + int i" and "b = int j * N + (int i + 1)"
    and "c = (int j + 1) * N + int i" and "d = (int j + 1) * N + (int i + 1)"
  have "(int j + 1) * N \<le> 255 * 256"
    using N assms(2) by (intro mult_mono) simp_all
  then have d: "d < 65536" using N assms(2) by (simp add: d_def)
  have "0 \<le> int j * N" using N by simp
  moreover have "int j * N \<le> (int j + 1) * N" using N by (simp add: algebra_simps)
  ultimately have bounds: "0 \<le> a" "a \<le> d" "0 \<le> b" "b \<le> d" "0 \<le> c" "c \<le> d" "0 \<le> d"
    by (simp_all add: a_def b_def c_def d_def)
  have ex: "uint (word_of_int k :: GLushort) = k" if "0 \<le> k" "k \<le> d" for k
    using that d by (simp add: uint_word_of_int)
  have "cell_indices N j i
      = [word_of_int a, word_of_int c, word_of_int b, word_of_int b, word_of_int c, word_of_int d]"
    by (simp only: cell_indices_def Let_def a_def b_def c_def d_def)
  then have "map (\<lambda>w. int (unat w)) (cell_indices N j i) = [a, c, b, b, c, d]"
    using bounds by (simp add: ex)
  then show ?thesis
    using assms(1) index_pass_cell [OF assms(3,4)]
    by (simp only: makeSombrero_sel a_def b_def c_def d_def)
qed

theorem cell_corner_indices_witness:
  "(3::int) \<le> 3 \<and> (3::int) \<le> 256 \<and> (1::nat) < nat (3 - 1) \<and>
   map (\<lambda>w. int (unat w)) (take 6 (drop (6 * (1 * nat (3 - 1) + 1)) (ibo (makeSombrero 3 1 1 1))))
     = [4, 7, 5, 5, 7, 8]"
  using cell_corner_indices [of 3 1 1 1 1 1] by simp

text \<open>
  C2 as stated, for every \<open>N \<ge> 3\<close> without an upper bound, fails at \<open>N = 257\<close>: the corner
  \<open>d\<close> of the cell in row 255 and column 255 is stored as 512.
\<close>

theorem index_wraps_at_257:
  "unat (ibo (makeSombrero 257 6 1 1) ! (6 * (255 * nat (257 - 1) + 255) + 5)) = 512 \<and>
   int (unat (ibo (makeSombrero 257 6 1 1) ! (6 * (255 * nat (257 - 1) + 255) + 5)))
     \<noteq> (int 255 + 1) * 257 + (int 255 + 1)"
proof -
  have "ibo (makeSombrero 257 6 1 1) ! (6 * (255 * nat (257 - 1) + 255) + 5)
      = cell_indices 257 255 255 ! 5"
    using index_pass_nth [of 255 257 255 5] by (simp add: makeSombrero_sel)
  also have "\<dots> = 512"
    by (simp add: cell_indices_def Let_def)
  finally show ?thesis by simp
qed

text \<open>
  C3 (as amended). For every resolution \<open>3 \<le> N \<le> 18919\<close> and all values of the radius, the
  height scale and the frequency, the builder returns a mesh with \<open>N\<^sup>2\<close> vertices, each with
  three position floats and three colour floats, and \<open>6 (N - 1)\<^sup>2\<close> indices, which is also its
  \<^verbatim>\<open>indexCount\<close>. The build \<open>(3, 1, 1, 1)\<close> has 9 vertices and 24 indices, the build
  \<open>(128, 6, 1, 1)\<close> has 16384 vertices and 96774 indices.
\<close>

theorem makeSombrero_counts:
  "(3 \<le> N \<and> N \<le> 18919 \<longrightarrow>
      makeSombrero_int N radius zscale freq = Some (makeSombrero N radius zscale freq) \<and>
      int (length (vbo (makeSombrero N radius zscale freq))) = 3 * (N * N) \<and>
      int (length (cbo (makeSombrero N radius zscale freq))) = 3 * (N * N) \<and>
      int (length (ibo (makeSombrero N radius zscale freq))) = 6 * ((N - 1) * (N - 1)) \<and>
      indexCount (makeSombrero N radius zscale freq) = 6 * ((N - 1) * (N - 1))) \<and>
   makeSombrero_int 3 1 1 1 = Some (makeSombrero 3 1 1 1) \<and>
   length (vbo (makeSombrero 3 1 1 1)) = 3 * 9 \<and>
   length (cbo (makeSombrero 3 1 1 1)) = 3 * 9 \<and>
   length (ibo (makeSombrero 3 1 1 1)) = 24 \<and>
   indexCount (makeSombrero 3 1 1 1) = 24 \<and>
   makeSombrero_int 128 6 1 1 = Some (makeSombrero 128 6 1 1) \<and>
   length (vbo (makeSombrero 128 6 1 1)) = 3 * 16384 \<and>
   length (cbo (makeSombrero 128 6 1 1)) = 3 * 16384 \<and>
   length (ibo (makeSombrero 128 6 1 1)) = 96774 \<and>
   indexCount (makeSombrero 128 6 1 1) = 96774"
proof -
  have gen: "makeSombrero_int N R S F = Some (makeSombrero N R S F) \<and>
      int (length (vbo (makeSombrero N R S F))) = 3 * (N * N) \<and>
      int (length (cbo (makeSombrero N R S F))) = 3 * (N * N) \<and>
      int (length (ibo (makeSombrero N R S F))) = 6 * ((N - 1) * (N - 1)) \<and>
      indexCount (makeSombrero N R S F) = 6 * ((N - 1) * (N - 1))"
    if "3 \<le> N" "N \<le> 18919" for N R S F
    using that makeSombrero_int_Some [OF that] indexCount_small [OF that]
    by (simp add: makeSombrero_sel length_pos length_colour_pass length_index_pass nat_square)
  have a: "makeSombrero_int 3 1 1 1 = Some (makeSombrero 3 1 1 1)"
      "length (vbo (makeSombrero 3 1 1 1)) = 3 * 9"
      "length (cbo (makeSombrero 3 1 1 1)) = 3 * 9"
      "length (ibo (makeSombrero 3 1 1 1)) = 24"
      "indexCount (makeSombrero 3 1 1 1) = 24"
    using makeSombrero_int_Some [of 3 1 1 1]
    by (simp_all add: makeSombrero_sel length_pos length_colour_pass length_index_pass)
  have b: "makeSombrero_int 128 6 1 1 = Some (makeSombrero 128 6 1 1)"
      "length (vbo (makeSombrero 128 6 1 1)) = 3 * 16384"
      "length (cbo (makeSombrero 128 6 1 1)) = 3 * 16384"
      "length (ibo (makeSombrero 128 6 1 1)) = 96774"
      "indexCount (makeSombrero 128 6 1 1) = 96774"
    using makeSombrero_int_Some [of 128 6 1 1]
    by (simp_all add: makeSombrero_sel length_pos length_colour_pass length_index_pass)
  show ?thesis using gen [of N radius zscale freq] a b by simp
qed

theorem makeSombrero_counts_witness:
  "(3::int) \<le> 5 \<and> (5::int) \<le> 18919 \<and>
   makeSombrero_int 5 2 1 1 = Some (makeSombrero 5 2 1 1) \<and>
   int (length (vbo (makeSombrero 5 2 1 1))) = 75 \<and>
   int (length (cbo (makeSombrero 5 2 1 1))) = 75 \<and>
   int (length (ibo (makeSombrero 5 2 1 1))) = 96 \<and>
   indexCount (makeSombrero 5 2 1 1) = 96"
  using makeSombrero_counts [of 5 2 1 1] by simp

text \<open>
  C3 as stated, for every \<open>N \<ge> 3\<close>, fails at \<open>N = 18920\<close>: \<open>(N - 1) * (N - 1) * 6\<close> is
  2147571366, above the largest \<^verbatim>\<open>int\<close>, and no mesh is returned.
\<close>

theorem no_mesh_at_18920:
  "(18920 - 1) * (18920 - 1) * 6 = (2147571366 :: int) \<and>
   (2147483647 :: int) < 2147571366 \<and>
   makeSombrero_int 18920 6 1 1 = None"
  by (simp add: makeSombrero_int_def Let_def int_overflow_def INT_MAX_def)

text \<open>
  C4. Whatever the resolution asked for, with \<open>N\<close> the resolution after the clamp to 3,
  every value in the index buffer is below the vertex count \<open>N\<^sup>2\<close>: it addresses a whole
  vertex of the position buffer and of the colour buffer. The radius, the height scale and
  the frequency are arbitrary.
\<close>

theorem index_below_vertex_count:
  assumes "N = (if N0 < 3 then 3 else N0)"
    and "w \<in> set (ibo (makeSombrero N0 radius zscale freq))"
  shows "int (unat w) < N * N
       \<and> 3 * unat w + 2 < length (vbo (makeSombrero N0 radius zscale freq))
       \<and> 3 * unat w + 2 < length (cbo (makeSombrero N0 radius zscale freq))"
proof -
  have N: "3 \<le> N" using assms(1) by simp
  have eq: "makeSombrero N0 radius zscale freq = makeSombrero N radius zscale freq"
    using assms(1) by (simp add: makeSombrero_def)
  have "w \<in> set (index_pass N)" using assms(2) N by (simp add: eq makeSombrero_sel)
  then obtain j i where "j < nat (N - 1)" "i < nat (N - 1)" "w \<in> set (cell_indices N j i)"
    using in_index_passD by blast
  then have lt: "int (unat w) < N * N" by (rule cell_indices_bound)
  then have "unat w < nat N * nat N"
    using N by (simp add: nat_square [symmetric] zless_nat_eq_int_zless)
  then show ?thesis using lt N
    by (simp add: eq makeSombrero_sel length_pos length_colour_pass nat_square)
qed

theorem index_below_vertex_count_witness:
  "(3::int) = (if (3::int) < 3 then 3 else 3) \<and>
   (8::GLushort) \<in> set (ibo (makeSombrero 3 1 1 1)) \<and>
   int (unat (8::GLushort)) < 3 * 3 \<and>
   3 * unat (8::GLushort) + 2 < length (vbo (makeSombrero 3 1 1 1)) \<and>
   3 * unat (8::GLushort) + 2 < length (cbo (makeSombrero 3 1 1 1))"
proof -
  have h1: "(3::int) = (if (3::int) < 3 then 3 else 3)" by simp
  have h2: "(8::GLushort) \<in> set (ibo (makeSombrero 3 1 1 1))"
    by (simp add: makeSombrero_sel index_pass_3)
  show ?thesis using index_below_vertex_count [OF h1 h2] h2 by simp
qed

text \<open>
  C5 (as amended). For finite parameters with \<open>|radius| \<le> 1e18\<close>, \<open>|freq| \<le> 1e18\<close> and
  \<open>|zscale| \<le> 1e30\<close>, the radius that divides in \<open>z = zscale * sin (freq * r) / r\<close> is, for
  every grid sample, a finite value of at least \<open>eps_f\<close>, the value of \<^verbatim>\<open>1e-4f\<close>, and the
  height stored for the sample is that quotient and is finite: neither NaN nor an infinity.
  For a sample at the origin the divisor is exactly \<open>eps_f\<close>.
\<close>

theorem radius_guard:
  assumes "3 \<le> N" and "j < nat N" and "i < nat N"
    and "\<bar>radius\<bar> \<le> 10 ^ 18" and "\<bar>freq\<bar> \<le> 10 ^ 18" and "\<bar>zscale\<bar> \<le> 10 ^ 30"
  shows "sample_r_f (Fin 0) (Fin 0) = Fin eps_f
       \<and> fbetween eps_f FLT_MAX
            (sample_r_f (grid_coord_f N radius i) (grid_coord_f N radius j))
       \<and> vbo_f N radius zscale freq ! (3 * (j * nat N + i) + 2)
            = sample_z_f zscale freq (sample_r_f (grid_coord_f N radius i) (grid_coord_f N radius j))
       \<and> ffinite (vbo_f N radius zscale freq ! (3 * (j * nat N + i) + 2))"
proof -
  have b: "\<bar>radius\<bar> \<le> 1000000000000000000" "\<bar>freq\<bar> \<le> 1000000000000000000"
    "\<bar>zscale\<bar> \<le> 1000000000000000000000000000000"
    using assms(4,5,6) by simp_all
  from sample_f_finite [OF assms(1,2,3) b] obtain r where
    sr: "sample_r_f (grid_coord_f N radius i) (grid_coord_f N radius j) = Fin r"
      and lo: "eps_f \<le> r" and hi: "r \<le> 2000000000000000000"
      and sz: "sample_z_f zscale freq (Fin r) = Fin (sample_z zscale freq r)"
    by blast
  note hi
  also have "(2000000000000000000 :: real) \<le> FLT_MAX" by (simp add: FLT_MAX_def)
  finally have hi': "r \<le> FLT_MAX" .
  have div: "fbetween eps_f FLT_MAX
            (sample_r_f (grid_coord_f N radius i) (grid_coord_f N radius j))"
    unfolding sr fbetween_def using lo hi' by simp
  have z: "vbo_f N radius zscale freq ! (3 * (j * nat N + i) + 2)
            = sample_z_f zscale freq (sample_r_f (grid_coord_f N radius i) (grid_coord_f N radius j))"
    by (rule vbo_f_z [OF assms(1,2,3)])
  have "ffinite (vbo_f N radius zscale freq ! (3 * (j * nat N + i) + 2))"
    unfolding z sr sz by (simp add: ffinite_def)
  with div z sample_r_f_origin show ?thesis by blast
qed

theorem radius_guard_witness:
  "(3::int) \<le> 3 \<and> (1::nat) < nat 3 \<and> \<bar>1::real\<bar> \<le> 10 ^ 18 \<and> \<bar>1::real\<bar> \<le> 10 ^ 30 \<and>
   fbetween eps_f FLT_MAX (sample_r_f (grid_coord_f 3 1 1) (grid_coord_f 3 1 1)) \<and>
   ffinite (vbo_f 3 1 1 1 ! (3 * (1 * nat 3 + 1) + 2))"
proof -
  have h: "(3::int) \<le> 3" "(1::nat) < nat 3" "\<bar>1::real\<bar> \<le> 10 ^ 18" "\<bar>1::real\<bar> \<le> 10 ^ 30"
    by simp_all
  show ?thesis
    using radius_guard [OF h(1,2,2,3,3,4)] h by blast
qed

text \<open>
  C5 as stated, for all finite parameters, fails: with radius \<open>1e20\<close> the squares of the
  coordinates are infinite and the height of vertex 0 is NaN; with height scale \<open>1e35\<close> and
  frequency \<open>10000\<close> the height of the centre vertex of the 3 x 3 grid is infinite.
\<close>

theorem height_not_finite:
  "vbo_f 3 (10 ^ 20) 1 1 ! 2 = NaN \<and> vbo_f 3 1 (10 ^ 35) 10000 ! 14 = PInf"
proof -
  have g: "grid_coord_f 3 (10 ^ 20) 0 = Fin (- (10 ^ 20))"
    by (simp add: grid_coord_f_def Let_def fsub_def fl_def FLT_MAX_def)
  have r: "sample_r_f (Fin (- (10 ^ 20))) (Fin (- (10 ^ 20))) = PInf"
    by (simp add: sample_r_f_def Let_def fl_def FLT_MAX_def)
  have "vbo_f 3 (10 ^ 20) 1 1 ! (3 * (0 * nat 3 + 0) + 2)
      = sample_z_f 1 1 (sample_r_f (grid_coord_f 3 (10 ^ 20) 0) (grid_coord_f 3 (10 ^ 20) 0))"
    by (rule vbo_f_z) simp_all
  also have "\<dots> = sample_z_f 1 1 PInf" by (simp only: g r)
  also have "\<dots> = NaN" by (simp add: sample_z_f_def)
  finally have a: "vbo_f 3 (10 ^ 20) 1 1 ! 2 = NaN" by (simp add: numeral_2_eq_2 [symmetric])
  have c: "grid_coord_f 3 1 1 = Fin 0"
    by (simp add: grid_coord_f_def Let_def fsub_def fl_def FLT_MAX_def)
  define t where "t = 10000 * eps_f"
  have t: "pi / 6 \<le> t" "t \<le> pi / 2" "\<bar>t\<bar> \<le> FLT_MAX"
    using pi_less_4 pi_ge_two by (simp_all add: t_def eps_f_def FLT_MAX_def)
  have "sin (pi / 6) \<le> sin t"
    using t(1,2) pi_gt_zero by (intro sin_monotone_2pi_le) simp_all
  then have half: "1 / 2 \<le> sin t" by (simp only: sin_30)
  have "(5000 :: real) \<le> (1 / 2) / eps_f" by (simp add: eps_f_def)
  also have "\<dots> \<le> sin t / eps_f"
    using half by (rule divide_right_mono) (rule less_imp_le [OF eps_f_bounds(1)])
  finally have q: "5000 \<le> sin t / eps_f" .
  have q': "sin t / eps_f \<le> 10001"
  proof -
    have "sin t / eps_f \<le> 1 / eps_f" using eps_f_bounds(1) by (simp add: divide_right_mono)
    then show ?thesis using eps_f_bounds(2) by linarith
  qed
  have "FLT_MAX < 10 ^ 35 * 5000" by (simp add: FLT_MAX_def)
  also have "\<dots> \<le> 10 ^ 35 * (sin t / eps_f)" using q by simp
  finally have big: "FLT_MAX < 10 ^ 35 * (sin t / eps_f)" .
  have f1: "fl t = Fin t" using t(3) by (rule fl_Fin)
  have "\<bar>sin t / eps_f\<bar> \<le> FLT_MAX" using q q' by (simp add: FLT_MAX_def)
  then have f2: "fl (sin t / eps_f) = Fin (sin t / eps_f)" by (rule fl_Fin)
  have f3: "fl (10 ^ 35 * (sin t / eps_f)) = PInf" using big by (simp add: fl_def)
  have ez: "(eps_f = 0) = False" using eps_f_bounds(1) by simp
  have z: "sample_z_f (10 ^ 35) 10000 (Fin eps_f) = PInf"
    by (simp only: sample_z_f_def fmul.simps fsin.simps fdiv.simps t_def [symmetric] f1 f2 f3 ez
        if_False)
  have "vbo_f 3 1 (10 ^ 35) 10000 ! (3 * (1 * nat 3 + 1) + 2)
      = sample_z_f (10 ^ 35) 10000 (sample_r_f (grid_coord_f 3 1 1) (grid_coord_f 3 1 1))"
    by (rule vbo_f_z) simp_all
  also have "\<dots> = PInf" by (simp only: c sample_r_f_origin z)
  finally have b: "vbo_f 3 1 (10 ^ 35) 10000 ! 14 = PInf" by simp
  show ?thesis using a b by simp
qed

text \<open>
  C6. The build \<open>(3, 1e-5, 1e6, 5000 pi)\<close>: all nine sampled heights are equal to \<open>1e10\<close>,
  the running minimum stays at its starting value \<open>1e9\<close>, the range is \<open>9e9\<close> and not 0,
  and vertex 0 has the colour \<open>(1, 0, 0)\<close>, not \<open>(0, 0, 1)\<close>.
\<close>

theorem equal_heights_all_red:
  "vbo (makeSombrero 3 (1 / 100000) 1000000 (5000 * pi)) ! 2 = 10000000000 \<and>
   vbo (makeSombrero 3 (1 / 100000) 1000000 (5000 * pi)) ! 5 = 10000000000 \<and>
   vbo (makeSombrero 3 (1 / 100000) 1000000 (5000 * pi)) ! 8 = 10000000000 \<and>
   vbo (makeSombrero 3 (1 / 100000) 1000000 (5000 * pi)) ! 11 = 10000000000 \<and>
   vbo (makeSombrero 3 (1 / 100000) 1000000 (5000 * pi)) ! 14 = 10000000000 \<and>
   vbo (makeSombrero 3 (1 / 100000) 1000000 (5000 * pi)) ! 17 = 10000000000 \<and>
   vbo (makeSombrero 3 (1 / 100000) 1000000 (5000 * pi)) ! 20 = 10000000000 \<and>
   vbo (makeSombrero 3 (1 / 100000) 1000000 (5000 * pi)) ! 23 = 10000000000 \<and>
   vbo (makeSombrero 3 (1 / 100000) 1000000 (5000 * pi)) ! 26 = 10000000000 \<and>
   zmin (sample_grid 3 (1 / 100000) 1000000 (5000 * pi)) = 1000000000 \<and>
   zmax (sample_grid 3 (1 / 100000) 1000000 (5000 * pi))
     - zmin (sample_grid 3 (1 / 100000) 1000000 (5000 * pi)) = 9000000000 \<and>
   cbo (makeSombrero 3 (1 / 100000) 1000000 (5000 * pi)) ! 0 = 1 \<and>
   cbo (makeSombrero 3 (1 / 100000) 1000000 (5000 * pi)) ! 1 = 0 \<and>
   cbo (makeSombrero 3 (1 / 100000) 1000000 (5000 * pi)) ! 2 = 0"
  using beyond_sentinel_all_red [of 0] beyond_sentinel_all_red [of 1] beyond_sentinel_all_red [of 2]
    beyond_sentinel_all_red [of 3] beyond_sentinel_all_red [of 4] beyond_sentinel_all_red [of 5]
    beyond_sentinel_all_red [of 6] beyond_sentinel_all_red [of 7] beyond_sentinel_all_red [of 8]
  by (simp add: tiny_extrema numeral_2_eq_2 [symmetric])

text \<open>
  C7. At angle 0 the rotation of a frame, \<open>RotateY(0 * 0.9) * RotateX(0 * 0.5)\<close>, is the
  identity matrix. At angle \<open>pi / 0.9\<close> the rotation about the Y axis has the angle
  \<open>0.9 * (pi / 0.9) = pi\<close>, a half turn: it negates the X and Z axes and keeps the Y axis.
\<close>

theorem rotation_at_zero_and_half_turn:
  "frame_rotation 0 = identity \<and>
   mul (rotateY (0 * 0.9)) (rotateX (0 * 0.5)) = identity \<and>
   (pi / 0.9) * 0.9 = pi \<and>
   rotateY ((pi / 0.9) * 0.9) = [- 1, 0, 0, 0,  0, 1, 0, 0,  0, 0, - 1, 0,  0, 0, 0, 1]"
proof -
  have "mul (rotateY 0) (rotateX 0) = identity"
    unfolding mul_rotateY_rotateX identity_eq by simp
  then show ?thesis
    by (simp add: frame_rotation_def rotateY_eq [of pi])
qed

text \<open>
  C8. The projection for a field of view of 60 degrees, aspect 1, near plane 0.1 and far
  plane 50 has the entry \<open>-1\<close> at position 11, \<open>(far + near) / (near - far) = -50.1 / 49.9\<close>
  at position 10 and \<open>2 far near / (near - far) = -10 / 49.9\<close> at position 14, so each lies
  within \<open>1e-5\<close> of its closed form.
\<close>

theorem perspective_entries:
  "perspective (60 * (pi / 180)) 1 (1 / 10) 50 ! 11 = - 1 \<and>
   perspective (60 * (pi / 180)) 1 (1 / 10) 50 ! 10 = - 50.1 / 49.9 \<and>
   perspective (60 * (pi / 180)) 1 (1 / 10) 50 ! 14 = - 10 / 49.9 \<and>
   \<bar>perspective (60 * (pi / 180)) 1 (1 / 10) 50 ! 10 - (50 + 0.1) / (0.1 - 50)\<bar> \<le> 1 / 100000 \<and>
   \<bar>perspective (60 * (pi / 180)) 1 (1 / 10) 50 ! 14 - (2 * 50 * 0.1) / (0.1 - 50)\<bar> \<le> 1 / 100000"
  by (simp add: perspective_eq)

text \<open>
  C9. A resolution below 3 is clamped to 3: the mesh returned is the mesh of resolution 3
  for the same radius, height scale and frequency, in all of its buffers and in its index
  count.
\<close>

theorem clamp_resolution:
  "N < 3 \<Longrightarrow> makeSombrero N radius zscale freq = makeSombrero 3 radius zscale freq"
  by (simp add: makeSombrero_def)

theorem clamp_resolution_witness:
  "(- 5 :: int) < 3 \<and> makeSombrero (- 5) 6 1 1 = makeSombrero 3 6 1 1"
  using clamp_resolution [of "- 5" 6 1 1] by simp

text \<open>
  C10 (as amended). For every radius with \<open>0 < radius \<le> FLT_MAX / 2\<close> and every \<open>N \<ge> 3\<close>, the
  \<open>x\<close> and \<open>y\<close> components of every vertex position are finite and lie in \<open>[-1.5, 1.5]\<close>; in
  the first and the last column \<open>x\<close> is exactly \<open>-1.5\<close> and \<open>1.5\<close>, in the first and the last
  row \<open>y\<close> is, so the four corner vertices lie at \<open>\<plusminus>1.5\<close> in both components, whatever the
  radius.
\<close>

theorem position_in_display_square:
  assumes "0 < radius" and "2 * radius \<le> FLT_MAX" and "3 \<le> N" and "j < nat N" and "i < nat N"
  shows "fbetween (- (3 / 2)) (3 / 2) (vbo_f N radius zscale freq ! (3 * (j * nat N + i)))
       \<and> fbetween (- (3 / 2)) (3 / 2) (vbo_f N radius zscale freq ! (3 * (j * nat N + i) + 1))
       \<and> (i = 0 \<longrightarrow> vbo_f N radius zscale freq ! (3 * (j * nat N + i)) = Fin (- (3 / 2)))
       \<and> (i = nat N - 1 \<longrightarrow> vbo_f N radius zscale freq ! (3 * (j * nat N + i)) = Fin (3 / 2))
       \<and> (j = 0 \<longrightarrow> vbo_f N radius zscale freq ! (3 * (j * nat N + i) + 1) = Fin (- (3 / 2)))
       \<and> (j = nat N - 1 \<longrightarrow> vbo_f N radius zscale freq ! (3 * (j * nat N + i) + 1) = Fin (3 / 2))"
  unfolding vbo_f_xy [OF assms]
  using scaled_range [OF assms(1,3,5)] scaled_range [OF assms(1,3,4)]
  by (simp add: fbetween_def)

theorem position_in_display_square_witness:
  "(0::real) < 6 \<and> 2 * (6::real) \<le> FLT_MAX \<and> (3::int) \<le> 3 \<and> (2::nat) < nat 3 \<and> (0::nat) < nat 3 \<and>
   fbetween (- (3 / 2)) (3 / 2) (vbo_f 3 6 1 1 ! (3 * (2 * nat 3 + 0))) \<and>
   vbo_f 3 6 1 1 ! (3 * (2 * nat 3 + 0)) = Fin (- (3 / 2)) \<and>
   vbo_f 3 6 1 1 ! (3 * (2 * nat 3 + 0) + 1) = Fin (3 / 2)"
proof -
  have h: "(0::real) < 6" "2 * (6::real) \<le> FLT_MAX" "(3::int) \<le> 3" "(2::nat) < nat 3" "(0::nat) < nat 3"
    by (simp_all add: FLT_MAX_def)
  have c: "(0::nat) = 0" "(2::nat) = nat 3 - 1" by simp_all
  show ?thesis
    using position_in_display_square [OF h, of 1 1] h c by blast
qed

text \<open>
  C10 as stated, for every radius \<open>> 0\<close>, fails at the finite radius \<open>3e38\<close>: the width
  \<^verbatim>\<open>xmax-xmin\<close> is infinite, and the \<open>x\<close> component of vertex 0, a corner, is NaN.
\<close>

theorem position_nan_at_large_radius:
  "(0::real) < 3 * 10 ^ 38 \<and> (3 * 10 ^ 38 :: real) \<le> FLT_MAX \<and> vbo_f 3 (3 * 10 ^ 38) 1 1 ! 0 = NaN"
proof -
  have "vbo_f 3 (3 * 10 ^ 38) 1 1 ! (3 * (0 * nat 3 + 0) + 0)
      = vertex_f 3 (3 * 10 ^ 38) 1 1 (grid_coord_f 3 (3 * 10 ^ 38) 0) 0 ! 0"
    by (rule vbo_f_nth) simp_all
  moreover have "grid_coord_f 3 (3 * 10 ^ 38) 0 = NaN"
    by (simp add: grid_coord_f_def Let_def fsub_def fl_def FLT_MAX_def)
  ultimately show ?thesis
    by (simp add: vertex_f_def Let_def FLT_MAX_def)
qed

end
